theory Spec2Isabelle
  imports Main "HOL-Library.AList" "HOL-Library.Word"
begin

section \<open>The legal-database enhancer (Database/enhance\_new\_database\_template.py)\<close>

text \<open>
  The script loads a JSON document, walks its chapters and their articles, stores derived
  fields in the dictionaries it finds and serialises the result. The embedding below
  covers lines 19 to 34 of \<^verbatim>\<open>enhance_database\<close> (the value returned by
  \<^verbatim>\<open>json.load\<close> is the argument, the value handed to \<^verbatim>\<open>json.dump\<close> is the
  result) and \<^verbatim>\<open>extract_keywords\<close>. Every exception the Python raises on the way is
  a value \<open>Inl e\<close>; nothing in the script catches one.
\<close>

subsection \<open>Values produced by json.load\<close>

text \<open>
  A Python \<^verbatim>\<open>dict\<close> keeps its keys in insertion order, so an object is an association
  list; lookups read the first binding of a key (the parser yields each key once). A
  \<^verbatim>\<open>float\<close> is carried as its 64 bits and never inspected. A \<^verbatim>\<open>str\<close> is a list of
  code points; \<^typ>\<open>char\<close> covers the code points below 256.
\<close>

datatype json =
    JNull
  | JBool bool
  | JInt int
  | JFloat "64 word"
  | JString string
  | JArray "json list"
  | JObject "(string \<times> json) list"

datatype error =
    KeyError string
  | TypeError
  | AttributeError

record datetime =
  year :: nat
  month :: nat
  day :: nat

text \<open>
  What the script takes from the interpreter and the machine rather than from its input:
  the clock read by \<^verbatim>\<open>datetime.now()\<close>, the order in which \<^verbatim>\<open>list(set(...))\<close>
  enumerates the set built from a sequence of insertions (it depends on the string hash
  seed of the process), and \<^verbatim>\<open>format(v, '')\<close> of a float, list or dict.
\<close>

record runtime =
  now :: datetime
  set_order :: "string list \<Rightarrow> string list"
  repr_other :: "json \<Rightarrow> string"

subsection \<open>Sequencing of fallible steps\<close>

fun bind_err :: "error + 'a \<Rightarrow> ('a \<Rightarrow> error + 'b) \<Rightarrow> error + 'b" where
  "bind_err (Inl e) f = Inl e"
| "bind_err (Inr x) f = f x"

text \<open>A \<^verbatim>\<open>for\<close> loop over a list whose body may raise: the first exception ends it.\<close>

fun map_err :: "('a \<Rightarrow> error + 'b) \<Rightarrow> 'a list \<Rightarrow> error + 'b list" where
  "map_err f [] = Inr []"
| "map_err f (x # xs) =
     bind_err (f x) (\<lambda>y. bind_err (map_err f xs) (\<lambda>ys. Inr (y # ys)))"

subsection \<open>Dictionary and sequence operations of Python\<close>

text \<open>\<^verbatim>\<open>obj[key]\<close> with a string key: only a dict accepts it.\<close>

fun getitem :: "json \<Rightarrow> string \<Rightarrow> error + json" where
  "getitem (JObject kvs) k =
     (case map_of kvs k of None \<Rightarrow> Inl (KeyError k) | Some v \<Rightarrow> Inr v)"
| "getitem _ k = Inl TypeError"

text \<open>
  \<^verbatim>\<open>obj[key] = value\<close>: an existing key keeps its position, a new key goes last.
\<close>

fun setitem :: "json \<Rightarrow> string \<Rightarrow> json \<Rightarrow> error + json" where
  "setitem (JObject kvs) k v = Inr (JObject (AList.update k v kvs))"
| "setitem _ k v = Inl TypeError"

text \<open>\<^verbatim>\<open>obj.get(key, default)\<close>: a method of dict only.\<close>

fun get_default :: "json \<Rightarrow> string \<Rightarrow> json \<Rightarrow> error + json" where
  "get_default (JObject kvs) k d =
     (case map_of kvs k of None \<Rightarrow> Inr d | Some v \<Rightarrow> Inr v)"
| "get_default _ k d = Inl AttributeError"

text \<open>\<^verbatim>\<open>key in obj\<close> for a dict.\<close>

fun has_key :: "json \<Rightarrow> string \<Rightarrow> bool" where
  "has_key (JObject kvs) k = (map_of kvs k \<noteq> None)"
| "has_key _ k = False"

text \<open>
  Iteration: a list yields its elements, a dict its keys, a str its characters as
  one-character strs; None, booleans and numbers are not iterable.
\<close>

fun py_iter :: "json \<Rightarrow> error + json list" where
  "py_iter (JArray xs) = Inr xs"
| "py_iter (JObject kvs) = Inr (map (\<lambda>kv. JString (fst kv)) kvs)"
| "py_iter (JString s) = Inr (map (\<lambda>c. JString [c]) s)"
| "py_iter _ = Inl TypeError"

text \<open>
  The loop bodies mutate the items they are given in place. When the iterated value is
  the list stored under \<open>k\<close>, the list afterwards holds the mutated items; the keys of a
  dict, the characters of a str and the items of the default \<^verbatim>\<open>[]\<close> belong to no
  stored list.
\<close>

fun store_items :: "json \<Rightarrow> string \<Rightarrow> json list \<Rightarrow> json" where
  "store_items (JObject kvs) k items =
     (case map_of kvs k of
        Some (JArray old) \<Rightarrow> JObject (AList.update k (JArray items) kvs)
      | _ \<Rightarrow> JObject kvs)"
| "store_items obj k items = obj"

subsection \<open>Strings\<close>

definition digit_char :: "nat \<Rightarrow> char" where
  "digit_char d = ''0123456789'' ! (d mod 10)"

fun digits :: "nat \<Rightarrow> string" where
  "digits n = (if n < 10 then [digit_char n] else digits (n div 10) @ [digit_char (n mod 10)])"

text \<open>\<^verbatim>\<open>str(i)\<close> for an int.\<close>

definition str_int :: "int \<Rightarrow> string" where
  "str_int i = (if i < 0 then CHR ''-'' # digits (nat (- i)) else digits (nat i))"

text \<open>
  A replacement field \<^verbatim>\<open>{v}\<close> of an f-string is \<^verbatim>\<open>format(v, '')\<close>: a str is
  itself, an int its decimal numeral, and None and the booleans their names.
\<close>

fun py_format :: "runtime \<Rightarrow> json \<Rightarrow> string" where
  "py_format rt (JString s) = s"
| "py_format rt (JInt i) = str_int i"
| "py_format rt (JBool b) = (if b then ''True'' else ''False'')"
| "py_format rt JNull = ''None''"
| "py_format rt v = repr_other rt v"

fun join_strs :: "string \<Rightarrow> string list \<Rightarrow> string" where
  "join_strs sep [] = []"
| "join_strs sep [s] = s"
| "join_strs sep (s # t # ts) = s @ sep @ join_strs sep (t # ts)"

fun as_str :: "json \<Rightarrow> error + string" where
  "as_str (JString s) = Inr s"
| "as_str _ = Inl TypeError"

text \<open>\<^verbatim>\<open>sep.join(v)\<close>: \<open>v\<close> must be iterable and every item a str.\<close>

definition py_join :: "string \<Rightarrow> json \<Rightarrow> error + string" where
  "py_join sep v =
     bind_err (py_iter v) (\<lambda>items.
     bind_err (map_err as_str items) (\<lambda>ss. Inr (join_strs sep ss)))"

text \<open>
  The characters \<^verbatim>\<open>str.split()\<close> treats as white space, among the code points below
  256: tab to carriage return, the four separators 0x1C to 0x1F, the space, NEXT LINE
  and NO-BREAK SPACE.
\<close>

definition isspace :: "char \<Rightarrow> bool" where
  "isspace c =
     (let n = (of_char c :: nat)
      in (9 \<le> n \<and> n \<le> 13) \<or> (28 \<le> n \<and> n \<le> 32) \<or> n = 133 \<or> n = 160)"

text \<open>
  \<^verbatim>\<open>text.split()\<close>: \<open>w\<close> is the word read so far; white space ends it, and a run of
  white space, or white space at either end, yields no empty word.
\<close>

fun split_from :: "string \<Rightarrow> string \<Rightarrow> string list" where
  "split_from w [] = (if w = [] then [] else [w])"
| "split_from w (c # cs) =
     (if isspace c then (if w = [] then split_from [] cs else w # split_from [] cs)
      else split_from (w @ [c]) cs)"

definition py_split :: "string \<Rightarrow> string list" where
  "py_split text = split_from [] text"

text \<open>
  \<^verbatim>\<open>str.lower()\<close> on the code points below 256: the letters A to Z and the
  capital letters 0xC0 to 0xDE (the multiplication sign 0xD7 apart) move up by 32.
\<close>

definition lower_char :: "char \<Rightarrow> char" where
  "lower_char c =
     (let n = (of_char c :: nat)
      in if (65 \<le> n \<and> n \<le> 90) \<or> (192 \<le> n \<and> n \<le> 222 \<and> n \<noteq> 215)
         then char_of (n + 32) else c)"

definition py_lower :: "string \<Rightarrow> string" where
  "py_lower s = map lower_char s"

text \<open>
  \<^verbatim>\<open>strftime('%Y-%m-%d')\<close>: the year on four digits, month and day on two, padded
  with zeros.
\<close>

definition zero_pad :: "nat \<Rightarrow> string \<Rightarrow> string" where
  "zero_pad w s = replicate (w - length s) (CHR ''0'') @ s"

definition strftime_ymd :: "datetime \<Rightarrow> string" where
  "strftime_ymd d =
     zero_pad 4 (digits (year d)) @ ''-'' @ zero_pad 2 (digits (month d)) @ ''-''
       @ zero_pad 2 (digits (day d))"

subsection \<open>extract\_keywords\<close>

text \<open>
  \<^verbatim>\<open>list(set(word.lower() for word in text.split() if len(word) > 4))\<close>. The
  argument is always a str in this script; any other JSON value has no \<^verbatim>\<open>split\<close>.
\<close>

fun extract_keywords :: "runtime \<Rightarrow> json \<Rightarrow> error + json" where
  "extract_keywords rt (JString text) =
     Inr (JArray (map JString
       (set_order rt (map py_lower (filter (\<lambda>word. length word > 4) (py_split text))))))"
| "extract_keywords rt _ = Inl AttributeError"

subsection \<open>enhance\_database\<close>

text \<open>The body of the inner loop (lines 23 to 27), for one article.\<close>

definition enhance_article :: "runtime \<Rightarrow> string \<Rightarrow> json \<Rightarrow> json \<Rightarrow> error + json" where
  "enhance_article rt chapter_id chapter article =
     bind_err (getitem article ''article_number'') (\<lambda>num.
     let article_id = chapter_id @ ''_art_'' @ py_format rt num in
     bind_err (setitem article ''id'' (JString article_id)) (\<lambda>a1.
     bind_err (getitem a1 ''content'') (\<lambda>content.
     bind_err (get_default a1 ''points'' (JArray [])) (\<lambda>points.
     bind_err (py_join ''; '' points) (\<lambda>joined.
     bind_err (setitem a1 ''fullText'' (JString (py_format rt content @ '' '' @ joined))) (\<lambda>a2.
     bind_err (getitem a2 ''fullText'') (\<lambda>text.
     bind_err (extract_keywords rt text) (\<lambda>kws.
     bind_err (setitem a2 ''keywords'' kws) (\<lambda>a3.
     bind_err (getitem chapter ''chapter_title'') (\<lambda>title.
     setitem a3 ''tags'' (JArray [title])))))))))))"

text \<open>The body of the outer loop (lines 20 to 27), for one chapter.\<close>

definition enhance_chapter :: "runtime \<Rightarrow> json \<Rightarrow> error + json" where
  "enhance_chapter rt chapter =
     bind_err (getitem chapter ''chapter_number'') (\<lambda>num.
     let chapter_id = ''chap_'' @ py_format rt num in
     bind_err (setitem chapter ''id'' (JString chapter_id)) (\<lambda>c1.
     bind_err (get_default c1 ''articles'' (JArray [])) (\<lambda>arts.
     bind_err (py_iter arts) (\<lambda>items.
     bind_err (map_err (enhance_article rt chapter_id c1) items) (\<lambda>items'.
     Inr (store_items c1 ''articles'' items'))))))"

text \<open>
  Lines 31 to 34: the metadata dictionary is created when absent, then written to twice.
  Each write goes to the object \<^verbatim>\<open>data['metadata']\<close> refers to, so the document
  holds the written dictionary afterwards.
\<close>

definition update_metadata :: "runtime \<Rightarrow> json \<Rightarrow> error + json" where
  "update_metadata rt data =
     bind_err (if \<not> has_key data ''metadata'' then setitem data ''metadata'' (JObject [])
               else Inr data) (\<lambda>d1.
     bind_err (getitem d1 ''metadata'') (\<lambda>m1.
     bind_err (setitem m1 ''enhanced'' (JBool True)) (\<lambda>m2.
     bind_err (setitem d1 ''metadata'' m2) (\<lambda>d2.
     bind_err (getitem d2 ''metadata'') (\<lambda>m3.
     bind_err (setitem m3 ''last_updated'' (JString (strftime_ymd (now rt)))) (\<lambda>m4.
     setitem d2 ''metadata'' m4))))))"

definition enhance_database :: "runtime \<Rightarrow> json \<Rightarrow> error + json" where
  "enhance_database rt data =
     bind_err (get_default data ''chapters'' (JArray [])) (\<lambda>chs.
     bind_err (py_iter chs) (\<lambda>items.
     bind_err (map_err (enhance_chapter rt) items) (\<lambda>items'.
     update_metadata rt (store_items data ''chapters'' items'))))"

subsection \<open>Reading documents\<close>

text \<open>The value stored under a key of a dict, if any.\<close>

fun field :: "string \<Rightarrow> json \<Rightarrow> json option" where
  "field k (JObject kvs) = map_of kvs k"
| "field k _ = None"

text \<open>The Chapters of a document and the Articles of a chapter, in file order.\<close>

definition chapters_of :: "json \<Rightarrow> json list" where
  "chapters_of d = (case field ''chapters'' d of Some (JArray cs) \<Rightarrow> cs | _ \<Rightarrow> [])"

definition articles_of :: "json \<Rightarrow> json list" where
  "articles_of c = (case field ''articles'' c of Some (JArray as) \<Rightarrow> as | _ \<Rightarrow> [])"

text \<open>The value \<^verbatim>\<open>article.get('points', [])\<close> reads.\<close>

definition points_of :: "json \<Rightarrow> json" where
  "points_of a = (case field ''points'' a of None \<Rightarrow> JArray [] | Some p \<Rightarrow> p)"

subsection \<open>The data model of the specification\<close>

text \<open>
  The shape of a document: a dict whose \<open>chapters\<close>, when present, is a list of dicts,
  each with \<open>articles\<close>, when present, a list of dicts, each with \<open>points\<close>, when
  present, a list of strings. Required keys may still be missing.
\<close>

fun is_object :: "json \<Rightarrow> bool" where
  "is_object (JObject kvs) = True"
| "is_object _ = False"

fun is_string :: "json \<Rightarrow> bool" where
  "is_string (JString s) = True"
| "is_string _ = False"

definition shaped_article :: "json \<Rightarrow> bool" where
  "shaped_article a =
     (is_object a \<and>
      (case field ''points'' a of None \<Rightarrow> True
       | Some (JArray ps) \<Rightarrow> list_all is_string ps
       | Some _ \<Rightarrow> False))"

definition shaped_chapter :: "json \<Rightarrow> bool" where
  "shaped_chapter c =
     (is_object c \<and>
      (case field ''articles'' c of None \<Rightarrow> True
       | Some (JArray as) \<Rightarrow> list_all shaped_article as
       | Some _ \<Rightarrow> False))"

definition shaped_document :: "json \<Rightarrow> bool" where
  "shaped_document d =
     (is_object d \<and>
      (case field ''chapters'' d of None \<Rightarrow> True
       | Some (JArray cs) \<Rightarrow> list_all shaped_chapter cs
       | Some _ \<Rightarrow> False))"

text \<open>A required key is missing: on an article, on a chapter or one of its articles, anywhere.\<close>

definition article_lacks :: "json \<Rightarrow> bool" where
  "article_lacks a = (field ''article_number'' a = None \<or> field ''content'' a = None)"

definition chapter_lacks :: "json \<Rightarrow> bool" where
  "chapter_lacks c =
     (field ''chapter_number'' c = None \<or> list_ex article_lacks (articles_of c))"

definition document_lacks :: "json \<Rightarrow> bool" where
  "document_lacks d = list_ex chapter_lacks (chapters_of d)"

text \<open>
  A valid document has the shape above, no required key missing, a \<open>chapter_title\<close> on
  every chapter that has an article, and \<open>metadata\<close>, when present, a dict.
\<close>

definition titled_chapter :: "json \<Rightarrow> bool" where
  "titled_chapter c = (articles_of c = [] \<or> field ''chapter_title'' c \<noteq> None)"

definition metadata_ok :: "json \<Rightarrow> bool" where
  "metadata_ok d = (case field ''metadata'' d of None \<Rightarrow> True | Some m \<Rightarrow> is_object m)"

definition valid_document :: "json \<Rightarrow> bool" where
  "valid_document d =
     (shaped_document d \<and> \<not> document_lacks d \<and> list_all titled_chapter (chapters_of d)
      \<and> metadata_ok d)"

text \<open>A date string of the form four digits, hyphen, two digits, hyphen, two digits.\<close>

definition is_digit :: "char \<Rightarrow> bool" where
  "is_digit c = (let n = (of_char c :: nat) in 48 \<le> n \<and> n \<le> 57)"

fun is_ymd :: "string \<Rightarrow> bool" where
  "is_ymd [y1, y2, y3, y4, h1, m1, m2, h2, d1, d2] =
     (is_digit y1 \<and> is_digit y2 \<and> is_digit y3 \<and> is_digit y4 \<and> h1 = CHR ''-'' \<and>
      is_digit m1 \<and> is_digit m2 \<and> h2 = CHR ''-'' \<and> is_digit d1 \<and> is_digit d2)"
| "is_ymd _ = False"

text \<open>The dates \<^verbatim>\<open>datetime.now()\<close> can return with a year of four digits.\<close>

definition clock_ok :: "datetime \<Rightarrow> bool" where
  "clock_ok t =
     (1000 \<le> year t \<and> year t \<le> 9999 \<and> 1 \<le> month t \<and> month t \<le> 12 \<and> 1 \<le> day t \<and> day t \<le> 31)"

text \<open>
  \<^verbatim>\<open>list(set(xs))\<close> lists every inserted string once, in an order of its own.
\<close>

definition set_order_ok :: "runtime \<Rightarrow> bool" where
  "set_order_ok rt = (\<forall>xs. set (set_order rt xs) = set xs \<and> distinct (set_order rt xs))"

text \<open>
  The outcome is a missing-key error on one of the keys the loops read without a default.
\<close>

fun is_missing_key :: "error \<Rightarrow> bool" where
  "is_missing_key (KeyError k) =
     (k \<in> set [''chapter_number'', ''chapter_title'', ''article_number'', ''content''])"
| "is_missing_key _ = False"

fun missing_field :: "error + 'a \<Rightarrow> bool" where
  "missing_field (Inl e) = is_missing_key e"
| "missing_field (Inr x) = False"

subsection \<open>Accessors and examples used in the statements\<close>

definition article_at :: "json \<Rightarrow> nat \<Rightarrow> nat \<Rightarrow> json" where
  "article_at d i j = articles_of (chapters_of d ! i) ! j"

text \<open>The keywords of an article as a set: the order of the stored list is left out.\<close>

definition keyword_set :: "json \<Rightarrow> json set" where
  "keyword_set a = (case field ''keywords'' a of Some (JArray ks) \<Rightarrow> set ks | _ \<Rightarrow> {})"

text \<open>
  A concrete run: the clock on 9 March 2024, a set enumerated in order of first
  insertion, and a document whose first chapter is number 3 and holds article 2 with the
  content and points of the specification's examples (and a \<open>tags\<close> value of its own),
  followed by a chapter that has neither articles nor a title. It has no \<open>metadata\<close>.
\<close>

definition example_runtime :: runtime where
  "example_runtime =
     \<lparr>now = \<lparr>year = 2024, month = 3, day = 9\<rparr>, set_order = remdups,
      repr_other = (\<lambda>v. ''<object>'')\<rparr>"

definition example_article :: json where
  "example_article =
     JObject [(''article_number'', JInt 2), (''content'', JString ''This is a test''),
              (''points'', JArray [JString ''first point'', JString ''second'']),
              (''tags'', JArray [JString ''old'', JString ''tags''])]"

definition example_document :: json where
  "example_document =
     JObject [(''title'', JString ''Law on New Topic''),
              (''chapters'', JArray
                 [JObject [(''chapter_number'', JInt 3), (''chapter_title'', JString ''General''),
                           (''articles'', JArray [example_article])],
                  JObject [(''chapter_number'', JString ''4'')]])]"

text \<open>What the example run hands to \<^verbatim>\<open>json.dump\<close>.\<close>

definition example_output :: json where
  "example_output =
     JObject [(''title'', JString ''Law on New Topic''),
              (''chapters'', JArray
                 [JObject [(''chapter_number'', JInt 3), (''chapter_title'', JString ''General''),
                           (''articles'', JArray
                              [JObject [(''article_number'', JInt 2),
                                        (''content'', JString ''This is a test''),
                                        (''points'', JArray [JString ''first point'', JString ''second'']),
                                        (''tags'', JArray [JString ''General'']),
                                        (''id'', JString ''chap_3_art_2''),
                                        (''fullText'', JString ''This is a test first point; second''),
                                        (''keywords'', JArray [JString ''first'', JString ''point;'',
                                                               JString ''second''])]]),
                           (''id'', JString ''chap_3'')],
                  JObject [(''chapter_number'', JString ''4''), (''id'', JString ''chap_4'')]]),
              (''metadata'', JObject [(''enhanced'', JBool True),
                                      (''last_updated'', JString ''2024-03-09'')])]"

text \<open>The entries of the document's \<open>metadata\<close> dict; none when the key is absent.\<close>

definition metadata_entries :: "json \<Rightarrow> (string \<times> json) list" where
  "metadata_entries d = (case field ''metadata'' d of Some (JObject m) \<Rightarrow> m | _ \<Rightarrow> [])"

text \<open>A document without chapters, whose metadata already says \<open>enhanced\<close> is false.\<close>

definition example_bare_document :: json where
  "example_bare_document =
     JObject [(''title'', JString ''Law on New Topic''),
              (''metadata'', JObject [(''version'', JInt 1), (''enhanced'', JBool False)])]"

text \<open>A document of the right shape whose second article has no \<open>content\<close>.\<close>

definition example_lacking_document :: json where
  "example_lacking_document =
     JObject [(''chapters'', JArray
                 [JObject [(''chapter_number'', JInt 1), (''chapter_title'', JString ''General''),
                           (''articles'', JArray
                              [JObject [(''article_number'', JInt 1), (''content'', JString ''Scope'')],
                               JObject [(''article_number'', JInt 2)]])]])]"

text \<open>
  A later run in another process: the clock has moved on and the set is enumerated in the
  opposite order.
\<close>

definition example_runtime_later :: runtime where
  "example_runtime_later =
     \<lparr>now = \<lparr>year = 2025, month = 1, day = 2\<rparr>, set_order = (\<lambda>xs. rev (remdups xs)),
      repr_other = (\<lambda>v. ''<object>'')\<rparr>"

definition example_output_later :: json where
  "example_output_later =
     JObject [(''title'', JString ''Law on New Topic''),
              (''chapters'', JArray
                 [JObject [(''chapter_number'', JInt 3), (''chapter_title'', JString ''General''),
                           (''articles'', JArray
                              [JObject [(''article_number'', JInt 2),
                                        (''content'', JString ''This is a test''),
                                        (''points'', JArray [JString ''first point'', JString ''second'']),
                                        (''tags'', JArray [JString ''General'']),
                                        (''id'', JString ''chap_3_art_2''),
                                        (''fullText'', JString ''This is a test first point; second''),
                                        (''keywords'', JArray [JString ''second'', JString ''point;'',
                                                               JString ''first''])]]),
                           (''id'', JString ''chap_3'')],
                  JObject [(''chapter_number'', JString ''4''), (''id'', JString ''chap_4'')]]),
              (''metadata'', JObject [(''enhanced'', JBool True),
                                      (''last_updated'', JString ''2025-01-02'')])]"

section \<open>Properties\<close>

subsection \<open>Outcomes of the fallible steps\<close>


lemma bind_err_Inr_iff: "bind_err m f = Inr y \<longleftrightarrow> (\<exists>x. m = Inr x \<and> f x = Inr y)"
  by (cases m) auto

lemma bind_err_Inl_iff: "bind_err m f = Inl e \<longleftrightarrow> (m = Inl e \<or> (\<exists>x. m = Inr x \<and> f x = Inl e))"
  by (cases m) auto

lemma map_err_Inr_iff: "map_err f xs = Inr ys \<longleftrightarrow> list_all2 (\<lambda>x y. f x = Inr y) xs ys"
proof (induction xs arbitrary: ys)
  case Nil
  show ?case by auto
next
  case (Cons x xs)
  show ?case
    by (cases ys) (auto simp: bind_err_Inr_iff Cons.IH)
qed

lemma getitem_Inr_iff: "getitem a k = Inr v \<longleftrightarrow> field k a = Some v"
  by (cases a) (auto split: option.splits)

lemma setitem_Inr_iff: "setitem a k v = Inr a' \<longleftrightarrow> (\<exists>kvs. a = JObject kvs \<and> a' = JObject (AList.update k v kvs))"
  by (cases a) auto

lemma get_default_Inr_iff: "get_default a k d = Inr v \<longleftrightarrow> (is_object a \<and> v = (case field k a of None \<Rightarrow> d | Some w \<Rightarrow> w))"
  by (cases a) (auto split: option.splits)

lemma field_update: "field k (JObject (AList.update k' v kvs)) = (if k = k' then Some v else field k (JObject kvs))"
  by (simp add: update_conv')

lemma enhance_article_Inr:
  assumes "enhance_article rt cid ch a = Inr a'"
  shows "\<exists>kvs num content joined kws title.
           a = JObject kvs \<and> map_of kvs ''article_number'' = Some num
         \<and> map_of kvs ''content'' = Some content
         \<and> py_join ''; '' (points_of a) = Inr joined
         \<and> extract_keywords rt (JString (py_format rt content @ '' '' @ joined)) = Inr kws
         \<and> field ''chapter_title'' ch = Some title
         \<and> a' = JObject (AList.update ''tags'' (JArray [title])
                  (AList.update ''keywords'' kws
                  (AList.update ''fullText'' (JString (py_format rt content @ '' '' @ joined))
                  (AList.update ''id'' (JString (cid @ ''_art_'' @ py_format rt num)) kvs))))"
  using assms
  apply (cases a)
  apply (auto simp: enhance_article_def Let_def bind_err_Inr_iff getitem_Inr_iff setitem_Inr_iff get_default_Inr_iff update_conv' points_of_def split: option.splits)
  done


lemma map_err_Nil_iff [simp]: "map_err f [] = Inr ys \<longleftrightarrow> ys = []"
  by auto

lemma loop_store:
  assumes f_str: "\<And>s. f (JString s) = Inl TypeError"
    and it: "py_iter (case map_of kvs k of None \<Rightarrow> JArray [] | Some v \<Rightarrow> v) = Inr items"
    and m: "map_err f items = Inr items'"
  shows "\<exists>kvs'. store_items (JObject kvs) k items' = JObject kvs'
           \<and> (\<forall>k'. k' \<noteq> k \<longrightarrow> map_of kvs' k' = map_of kvs k')
           \<and> list_all2 (\<lambda>x y. f x = Inr y)
                 (case map_of kvs k of Some (JArray xs) \<Rightarrow> xs | _ \<Rightarrow> [])
                 (case map_of kvs' k of Some (JArray xs) \<Rightarrow> xs | _ \<Rightarrow> [])"
proof (cases "map_of kvs k")
  case None
  with it m show ?thesis by auto
next
  case (Some v)
  have strs: "map_err f (map (\<lambda>x. JString (g x)) xs) = Inr ys \<Longrightarrow> xs = []" for g :: "'x \<Rightarrow> string" and xs ys
    by (cases xs) (auto simp: f_str)
  show ?thesis
  proof (cases v)
    case (JArray xs)
    with Some it m show ?thesis
      by (simp add: update_conv' map_err_Inr_iff)
  next
    case (JObject m')
    with Some it have "items = map (\<lambda>kv. JString (fst kv)) m'" by simp
    with m have "m' = []" using strs[of fst m' items'] by simp
    with JObject Some it m show ?thesis by auto
  next
    case (JString t)
    with Some it have "items = map (\<lambda>c. JString [c]) t" by simp
    with m have "t = []" using strs[of "\<lambda>c. [c]" t items'] by simp
    with JString Some it m show ?thesis by auto
  qed (use Some it in simp_all)
qed


lemma enhance_article_string [simp]: "enhance_article rt cid ch (JString s) = Inl TypeError"
  by (simp add: enhance_article_def)

lemma enhance_chapter_string [simp]: "enhance_chapter rt (JString s) = Inl TypeError"
  by (simp add: enhance_chapter_def)

lemma enhance_chapter_object:
  "enhance_chapter rt (JObject kvs) =
     (case map_of kvs ''chapter_number'' of
        None \<Rightarrow> Inl (KeyError ''chapter_number'')
      | Some num \<Rightarrow>
          bind_err (py_iter (case map_of kvs ''articles'' of None \<Rightarrow> JArray [] | Some v \<Rightarrow> v)) (\<lambda>items.
          bind_err (map_err (enhance_article rt (''chap_'' @ py_format rt num)
                      (JObject (AList.update ''id'' (JString (''chap_'' @ py_format rt num)) kvs))) items) (\<lambda>items'.
          Inr (store_items (JObject (AList.update ''id'' (JString (''chap_'' @ py_format rt num)) kvs))
                 ''articles'' items'))))"
  by (simp add: enhance_chapter_def update_conv' Let_def split: option.splits)

lemma enhance_chapter_Inr:
  assumes "enhance_chapter rt c = Inr c'"
  shows "\<exists>kvs num.
           c = JObject kvs \<and> map_of kvs ''chapter_number'' = Some num
         \<and> is_object c'
         \<and> field ''id'' c' = Some (JString (''chap_'' @ py_format rt num))
         \<and> list_all2 (\<lambda>a a'. enhance_article rt (''chap_'' @ py_format rt num)
                 (JObject (AList.update ''id'' (JString (''chap_'' @ py_format rt num)) kvs)) a = Inr a')
               (articles_of c) (articles_of c')
         \<and> (\<forall>k. k \<noteq> ''id'' \<and> k \<noteq> ''articles'' \<longrightarrow> field k c' = field k c)"
proof -
  from assms obtain kvs where c: "c = JObject kvs"
    by (cases c) (simp_all add: enhance_chapter_def)
  from assms c obtain num where num: "map_of kvs ''chapter_number'' = Some num"
    by (auto simp: enhance_chapter_object split: option.splits)
  define cid where "cid = ''chap_'' @ py_format rt num"
  define kvs1 where "kvs1 = AList.update ''id'' (JString cid) kvs"
  have arts1: "map_of kvs1 ''articles'' = map_of kvs ''articles''"
    by (simp add: kvs1_def update_conv')
  from assms c num obtain items items' where
    it: "py_iter (case map_of kvs1 ''articles'' of None \<Rightarrow> JArray [] | Some v \<Rightarrow> v) = Inr items"
    and m: "map_err (enhance_article rt cid (JObject kvs1)) items = Inr items'"
    and c': "c' = store_items (JObject kvs1) ''articles'' items'"
    unfolding arts1 by (auto simp: enhance_chapter_object bind_err_Inr_iff cid_def kvs1_def)
  from loop_store[OF _ it m] c' obtain kvs' where
    k': "c' = JObject kvs'"
    and others: "\<forall>k'. k' \<noteq> ''articles'' \<longrightarrow> map_of kvs' k' = map_of kvs1 k'"
    and all2: "list_all2 (\<lambda>x y. enhance_article rt cid (JObject kvs1) x = Inr y)
                 (case map_of kvs1 ''articles'' of Some (JArray xs) \<Rightarrow> xs | _ \<Rightarrow> [])
                 (case map_of kvs' ''articles'' of Some (JArray xs) \<Rightarrow> xs | _ \<Rightarrow> [])"
    by auto
  have "field ''id'' c' = Some (JString cid)"
    using others by (simp add: k' kvs1_def update_conv')
  moreover have "\<forall>k. k \<noteq> ''id'' \<and> k \<noteq> ''articles'' \<longrightarrow> field k c' = field k c"
    using others by (simp add: k' c kvs1_def update_conv')
  moreover have "list_all2 (\<lambda>a a'. enhance_article rt cid (JObject kvs1) a = Inr a')
                   (articles_of c) (articles_of c')"
    using all2 unfolding arts1 by (simp add: articles_of_def c k')
  ultimately show ?thesis
    using c num k' unfolding cid_def kvs1_def by auto
qed

lemma update_metadata_object:
  "update_metadata rt (JObject kvs) =
     (case map_of kvs ''metadata'' of
        None \<Rightarrow> Inr (JObject (AList.update ''metadata''
                 (JObject [(''enhanced'', JBool True),
                           (''last_updated'', JString (strftime_ymd (now rt)))]) kvs))
      | Some (JObject m) \<Rightarrow> Inr (JObject (AList.update ''metadata''
                 (JObject (AList.update ''last_updated'' (JString (strftime_ymd (now rt)))
                            (AList.update ''enhanced'' (JBool True) m))) kvs))
      | Some _ \<Rightarrow> Inl TypeError)"
  by (simp add: update_metadata_def update_conv' split: option.splits json.splits)

lemma enhance_database_object:
  "enhance_database rt (JObject kvs) =
     bind_err (py_iter (case map_of kvs ''chapters'' of None \<Rightarrow> JArray [] | Some v \<Rightarrow> v)) (\<lambda>items.
     bind_err (map_err (enhance_chapter rt) items) (\<lambda>items'.
     update_metadata rt (store_items (JObject kvs) ''chapters'' items')))"
  by (simp add: enhance_database_def split: option.splits)


lemma update_metadata_Inr:
  assumes "update_metadata rt d = Inr d'"
  shows "\<exists>kvs m. d = JObject kvs \<and> metadata_ok d
         \<and> d' = JObject (AList.update ''metadata'' (JObject m) kvs)
         \<and> map_of m ''enhanced'' = Some (JBool True)
         \<and> map_of m ''last_updated'' = Some (JString (strftime_ymd (now rt)))
         \<and> (field ''metadata'' d = None \<longrightarrow>
               m = [(''enhanced'', JBool True), (''last_updated'', JString (strftime_ymd (now rt)))])
         \<and> (\<forall>m0. field ''metadata'' d = Some (JObject m0) \<longrightarrow>
               m = AList.update ''last_updated'' (JString (strftime_ymd (now rt)))
                     (AList.update ''enhanced'' (JBool True) m0))"
proof -
  from assms obtain kvs where d: "d = JObject kvs"
    by (cases d) (simp_all add: update_metadata_def)
  show ?thesis
  proof (cases "map_of kvs ''metadata''")
    case None
    with assms d show ?thesis
      by (simp add: update_metadata_object metadata_ok_def)
  next
    case (Some v)
    with assms d obtain m0 where "v = JObject m0"
      by (cases v) (simp_all add: update_metadata_object)
    with Some assms d show ?thesis
      by (simp add: update_metadata_object metadata_ok_def update_conv')
  qed
qed

lemma enhance_database_Inr:
  assumes "enhance_database rt d = Inr d'"
  shows "\<exists>kvs m. d = JObject kvs \<and> metadata_ok d \<and> is_object d'
         \<and> list_all2 (\<lambda>c c'. enhance_chapter rt c = Inr c') (chapters_of d) (chapters_of d')
         \<and> (\<forall>k. k \<noteq> ''chapters'' \<and> k \<noteq> ''metadata'' \<longrightarrow> field k d' = field k d)
         \<and> field ''metadata'' d' = Some (JObject m)
         \<and> map_of m ''enhanced'' = Some (JBool True)
         \<and> map_of m ''last_updated'' = Some (JString (strftime_ymd (now rt)))"
proof -
  from assms obtain kvs where d: "d = JObject kvs"
    by (cases d) (simp_all add: enhance_database_def)
  from assms d obtain items items' where
    it: "py_iter (case map_of kvs ''chapters'' of None \<Rightarrow> JArray [] | Some v \<Rightarrow> v) = Inr items"
    and m: "map_err (enhance_chapter rt) items = Inr items'"
    and um: "update_metadata rt (store_items (JObject kvs) ''chapters'' items') = Inr d'"
    by (auto simp: enhance_database_object bind_err_Inr_iff)
  from loop_store[OF _ it m] obtain kvs1 where
    k1: "store_items (JObject kvs) ''chapters'' items' = JObject kvs1"
    and others: "\<forall>k'. k' \<noteq> ''chapters'' \<longrightarrow> map_of kvs1 k' = map_of kvs k'"
    and all2: "list_all2 (\<lambda>x y. enhance_chapter rt x = Inr y)
                 (case map_of kvs ''chapters'' of Some (JArray xs) \<Rightarrow> xs | _ \<Rightarrow> [])
                 (case map_of kvs1 ''chapters'' of Some (JArray xs) \<Rightarrow> xs | _ \<Rightarrow> [])"
    by auto
  from update_metadata_Inr[OF um] k1 obtain mm where
    mok: "metadata_ok (JObject kvs1)"
    and d': "d' = JObject (AList.update ''metadata'' (JObject mm) kvs1)"
    and en: "map_of mm ''enhanced'' = Some (JBool True)"
    and lu: "map_of mm ''last_updated'' = Some (JString (strftime_ymd (now rt)))"
    by auto
  have "metadata_ok d"
    using mok others by (simp add: metadata_ok_def d)
  moreover have "list_all2 (\<lambda>c c'. enhance_chapter rt c = Inr c') (chapters_of d) (chapters_of d')"
    using all2 by (simp add: chapters_of_def d d' update_conv')
  moreover have "\<forall>k. k \<noteq> ''chapters'' \<and> k \<noteq> ''metadata'' \<longrightarrow> field k d' = field k d"
    using others by (simp add: d d' update_conv')
  moreover have "field ''metadata'' d' = Some (JObject mm)"
    by (simp add: d' update_conv')
  ultimately show ?thesis
    using d d' en lu by auto
qed


lemma strings_of: "list_all is_string ps \<Longrightarrow> \<exists>ss. ps = map JString ss"
proof (induction ps)
  case Nil
  show ?case by simp
next
  case (Cons p ps)
  then obtain ss where "ps = map JString ss" by auto
  moreover from Cons.prems obtain s where "p = JString s" by (cases p) auto
  ultimately have "p # ps = map JString (s # ss)" by simp
  then show ?case by (rule exI)
qed

lemma map_err_as_str: "map_err as_str (map JString ss) = Inr ss"
  by (induction ss) auto

lemma py_join_strings: "py_join sep (JArray (map JString ss)) = Inr (join_strs sep ss)"
  by (simp add: py_join_def map_err_as_str)

lemma shaped_article_join:
  assumes "shaped_article a"
  shows "\<exists>ss. points_of a = JArray (map JString ss) \<and> py_join sep (points_of a) = Inr (join_strs sep ss)"
proof (cases "field ''points'' a")
  case None
  then have "points_of a = JArray (map JString [])" by (simp add: points_of_def)
  then show ?thesis using py_join_strings[of sep "[]"] by auto
next
  case (Some p)
  with assms obtain ps where p: "p = JArray ps" and "list_all is_string ps"
    by (cases p) (auto simp: shaped_article_def)
  then obtain ss where "ps = map JString ss" using strings_of by blast
  with p Some have "points_of a = JArray (map JString ss)" by (simp add: points_of_def)
  then show ?thesis using py_join_strings[of sep ss] by auto
qed

lemma enhance_article_object:
  "enhance_article rt cid ch (JObject kvs) =
     (case map_of kvs ''article_number'' of
        None \<Rightarrow> Inl (KeyError ''article_number'')
      | Some num \<Rightarrow>
         (case map_of kvs ''content'' of
            None \<Rightarrow> Inl (KeyError ''content'')
          | Some content \<Rightarrow>
              bind_err (py_join ''; '' (points_of (JObject kvs))) (\<lambda>joined.
              bind_err (extract_keywords rt (JString (py_format rt content @ '' '' @ joined))) (\<lambda>kws.
              bind_err (getitem ch ''chapter_title'') (\<lambda>title.
              Inr (JObject (AList.update ''tags'' (JArray [title])
                  (AList.update ''keywords'' kws
                  (AList.update ''fullText'' (JString (py_format rt content @ '' '' @ joined))
                  (AList.update ''id'' (JString (cid @ ''_art_'' @ py_format rt num)) kvs))))))))))"
  by (simp add: enhance_article_def update_conv' Let_def points_of_def split: option.splits)

lemma getitem_object: "is_object a \<Longrightarrow> getitem a k = (case field k a of None \<Rightarrow> Inl (KeyError k) | Some v \<Rightarrow> Inr v)"
  by (cases a) simp_all

lemma article_outcome:
  assumes "shaped_article a" and "is_object ch"
  shows "(article_lacks a \<or> field ''chapter_title'' ch = None \<longrightarrow> missing_field (enhance_article rt cid ch a))
       \<and> (\<not> article_lacks a \<and> field ''chapter_title'' ch \<noteq> None \<longrightarrow> (\<exists>a'. enhance_article rt cid ch a = Inr a'))"
proof -
  from assms(1) obtain kvs where a: "a = JObject kvs"
    by (cases a) (simp_all add: shaped_article_def)
  from shaped_article_join[OF assms(1)] obtain ss where
    j: "py_join ''; '' (points_of (JObject kvs)) = Inr (join_strs ''; '' ss)"
    unfolding a by blast
  show ?thesis
    unfolding a enhance_article_object j
    by (auto simp: article_lacks_def getitem_object[OF assms(2)] split: option.splits)
qed

lemma map_err_outcome:
  assumes "\<forall>x\<in>set xs. missing_field (f x) \<or> (\<exists>y. f x = Inr y)"
  shows "((\<exists>x\<in>set xs. missing_field (f x)) \<longrightarrow> missing_field (map_err f xs))
       \<and> ((\<forall>x\<in>set xs. \<not> missing_field (f x)) \<longrightarrow> (\<exists>ys. map_err f xs = Inr ys))"
  using assms
proof (induction xs)
  case Nil
  show ?case by simp
next
  case (Cons x xs)
  show ?case
  proof (cases "f x")
    case (Inl e)
    with Cons.prems show ?thesis by auto
  next
    case (Inr y)
    from Cons have IH: "((\<exists>x\<in>set xs. missing_field (f x)) \<longrightarrow> missing_field (map_err f xs))
       \<and> ((\<forall>x\<in>set xs. \<not> missing_field (f x)) \<longrightarrow> (\<exists>ys. map_err f xs = Inr ys))" by simp
    show ?thesis
    proof (cases "map_err f xs")
      case (Inl e)
      with Inr IH show ?thesis by auto
    next
      case (Inr ys)
      with \<open>f x = Inr y\<close> IH show ?thesis by auto
    qed
  qed
qed


lemma missing_field_bind: "missing_field m \<Longrightarrow> missing_field (bind_err m g)"
  by (cases m) simp_all

lemma chapter_outcome:
  assumes "shaped_chapter c"
  shows "(chapter_lacks c \<or> \<not> titled_chapter c \<longrightarrow> missing_field (enhance_chapter rt c))
       \<and> (\<not> chapter_lacks c \<and> titled_chapter c \<longrightarrow> (\<exists>c'. enhance_chapter rt c = Inr c'))"
proof -
  from assms obtain kvs where c: "c = JObject kvs"
    by (cases c) (simp_all add: shaped_chapter_def)
  show ?thesis
  proof (cases "map_of kvs ''chapter_number''")
    case None
    then show ?thesis
      by (simp add: c enhance_chapter_object chapter_lacks_def)
  next
    case (Some num)
    define cid where "cid = ''chap_'' @ py_format rt num"
    define c1 where "c1 = JObject (AList.update ''id'' (JString cid) kvs)"
    define f where "f = enhance_article rt cid c1"
    have c1_obj: "is_object c1" by (simp add: c1_def)
    have title: "field ''chapter_title'' c1 = field ''chapter_title'' c"
      by (simp add: c1_def c update_conv')
    from assms have sh: "list_all shaped_article (articles_of c)"
      by (auto simp: shaped_chapter_def articles_of_def split: option.splits json.splits)
    from assms have it: "py_iter (case map_of kvs ''articles'' of None \<Rightarrow> JArray [] | Some v \<Rightarrow> v) = Inr (articles_of c)"
      by (auto simp: shaped_chapter_def articles_of_def c split: option.splits json.splits)
    have run: "enhance_chapter rt c =
        bind_err (map_err f (articles_of c)) (\<lambda>items'. Inr (store_items c1 ''articles'' items'))"
      by (simp add: c enhance_chapter_object Some it f_def c1_def cid_def)
    have each: "\<forall>a\<in>set (articles_of c). missing_field (f a) \<or> (\<exists>y. f a = Inr y)"
      using sh article_outcome[OF _ c1_obj, of _ rt cid] unfolding f_def list_all_iff by blast
    note loop = map_err_outcome[OF each]
    have lacks: "chapter_lacks c \<longleftrightarrow> (\<exists>a\<in>set (articles_of c). article_lacks a)"
      by (simp add: chapter_lacks_def c Some list_ex_iff)
    show ?thesis
    proof (cases "field ''chapter_title'' c")
      case None
      show ?thesis
      proof (cases "articles_of c")
        case Nil
        then show ?thesis by (simp add: run lacks titled_chapter_def)
      next
        case (Cons a as)
        then have "a \<in> set (articles_of c)" by simp
        moreover from this sh have "shaped_article a" by (simp add: list_all_iff)
        then have "missing_field (f a)"
          using article_outcome[OF _ c1_obj, of a rt cid] None title by (simp add: f_def)
        ultimately have "missing_field (map_err f (articles_of c))" using loop by blast
        then have "missing_field (enhance_chapter rt c)"
          unfolding run by (rule missing_field_bind)
        moreover have "\<not> titled_chapter c" by (simp add: titled_chapter_def Cons None)
        ultimately show ?thesis by simp
      qed
    next
      case (Some t)
      have iff: "missing_field (f a) \<longleftrightarrow> article_lacks a" if "a \<in> set (articles_of c)" for a
      proof -
        from that sh have "shaped_article a" by (simp add: list_all_iff)
        from article_outcome[OF this c1_obj, of rt cid] Some title show ?thesis
          by (auto simp: f_def)
      qed
      show ?thesis
      proof (cases "chapter_lacks c")
        case True
        then have "\<exists>a\<in>set (articles_of c). missing_field (f a)" using lacks iff by blast
        then have "missing_field (map_err f (articles_of c))" using loop by blast
        then have "missing_field (enhance_chapter rt c)"
          unfolding run by (rule missing_field_bind)
        with True show ?thesis by simp
      next
        case False
        then have "\<forall>a\<in>set (articles_of c). \<not> missing_field (f a)" using lacks iff by blast
        then obtain ys where "map_err f (articles_of c) = Inr ys" using loop by blast
        then have "\<exists>c'. enhance_chapter rt c = Inr c'" by (simp add: run)
        with False Some show ?thesis by (simp add: titled_chapter_def)
      qed
    qed
  qed
qed

lemma document_outcome:
  assumes "shaped_document d"
  shows "(document_lacks d \<or> \<not> list_all titled_chapter (chapters_of d) \<longrightarrow> missing_field (enhance_database rt d))
       \<and> (valid_document d \<longrightarrow> (\<exists>d'. enhance_database rt d = Inr d'))"
proof -
  from assms obtain kvs where d: "d = JObject kvs"
    by (cases d) (simp_all add: shaped_document_def)
  define f where "f = enhance_chapter rt"
  from assms have sh: "list_all shaped_chapter (chapters_of d)"
    by (auto simp: shaped_document_def chapters_of_def split: option.splits json.splits)
  from assms have it: "py_iter (case map_of kvs ''chapters'' of None \<Rightarrow> JArray [] | Some v \<Rightarrow> v) = Inr (chapters_of d)"
    by (auto simp: shaped_document_def chapters_of_def d split: option.splits json.splits)
  have run: "enhance_database rt d =
      bind_err (map_err f (chapters_of d)) (\<lambda>items'. update_metadata rt (store_items d ''chapters'' items'))"
    by (simp add: d enhance_database_object it f_def)
  have iff: "(missing_field (f c) \<longleftrightarrow> chapter_lacks c \<or> \<not> titled_chapter c)
           \<and> (missing_field (f c) \<or> (\<exists>y. f c = Inr y))" if "c \<in> set (chapters_of d)" for c
  proof -
    from that sh have "shaped_chapter c" by (simp add: list_all_iff)
    from chapter_outcome[OF this, of rt] show ?thesis
      by (auto simp: f_def)
  qed
  then have each: "\<forall>c\<in>set (chapters_of d). missing_field (f c) \<or> (\<exists>y. f c = Inr y)" by blast
  note loop = map_err_outcome[OF each]
  have "missing_field (enhance_database rt d)"
    if "document_lacks d \<or> \<not> list_all titled_chapter (chapters_of d)"
  proof -
    from that have "\<exists>c\<in>set (chapters_of d). missing_field (f c)"
      using iff by (auto simp: document_lacks_def list_ex_iff list_all_iff)
    then have "missing_field (map_err f (chapters_of d))" using loop by blast
    then show ?thesis unfolding run by (rule missing_field_bind)
  qed
  moreover have "\<exists>d'. enhance_database rt d = Inr d'" if v: "valid_document d"
  proof -
    from v have "\<forall>c\<in>set (chapters_of d). \<not> missing_field (f c)"
      using iff by (auto simp: valid_document_def document_lacks_def list_ex_iff list_all_iff)
    then obtain ys where ys: "map_err f (chapters_of d) = Inr ys" using loop by blast
    from loop_store[OF _ it, of f ys] ys obtain kvs1 where
      k1: "store_items (JObject kvs) ''chapters'' ys = JObject kvs1"
      and others: "\<forall>k'. k' \<noteq> ''chapters'' \<longrightarrow> map_of kvs1 k' = map_of kvs k'"
      by (auto simp: f_def)
    from v others have "metadata_ok (JObject kvs1)"
      by (simp add: valid_document_def metadata_ok_def d)
    then have "\<exists>d'. update_metadata rt (JObject kvs1) = Inr d'"
      by (auto simp: update_metadata_object metadata_ok_def split: option.splits json.splits)
    moreover from k1 have "store_items d ''chapters'' ys = JObject kvs1" by (simp add: d)
    ultimately show ?thesis by (simp add: run ys)
  qed
  ultimately show ?thesis by blast
qed

subsection \<open>The example run\<close>

lemma valid_example: "valid_document example_document"
  by (simp add: valid_document_def shaped_document_def shaped_chapter_def shaped_article_def
      document_lacks_def chapter_lacks_def article_lacks_def titled_chapter_def metadata_ok_def
      chapters_of_def articles_of_def example_document_def example_article_def)

lemma chapters_example: "length (chapters_of example_document) = 2"
  by (simp add: chapters_of_def example_document_def)

lemma str_int_small: "str_int 3 = ''3''" "str_int 2 = ''2''"
  by (simp_all add: str_int_def digit_char_def)

lemma shaped_document_chapters: "shaped_document d \<Longrightarrow> list_all shaped_chapter (chapters_of d)"
  by (auto simp: shaped_document_def chapters_of_def split: option.splits json.splits)

lemma shaped_chapter_articles: "shaped_chapter c \<Longrightarrow> list_all shaped_article (articles_of c)"
  by (auto simp: shaped_chapter_def articles_of_def split: option.splits json.splits)

lemma valid_article_shaped:
  assumes "valid_document d" and "i < length (chapters_of d)"
    and "j < length (articles_of (chapters_of d ! i))"
  shows "shaped_article (article_at d i j)"
proof -
  from assms(1) have "list_all shaped_chapter (chapters_of d)"
    by (simp add: valid_document_def shaped_document_chapters)
  with assms(2) have "shaped_chapter (chapters_of d ! i)"
    by (simp add: list_all_length)
  then have "list_all shaped_article (articles_of (chapters_of d ! i))"
    by (rule shaped_chapter_articles)
  with assms(3) show ?thesis
    by (simp add: list_all_length article_at_def)
qed

lemma valid_run: "valid_document d \<Longrightarrow> \<exists>d'. enhance_database rt d = Inr d'"
  using document_outcome[of d rt] by (simp add: valid_document_def)

lemma article_result:
  assumes run: "enhance_database rt d = Inr d'"
    and i: "i < length (chapters_of d)"
    and j: "j < length (articles_of (chapters_of d ! i))"
  shows "\<exists>ckvs cnum title kvs anum content joined kws.
      chapters_of d ! i = JObject ckvs
    \<and> map_of ckvs ''chapter_number'' = Some cnum
    \<and> map_of ckvs ''chapter_title'' = Some title
    \<and> field ''id'' (chapters_of d' ! i) = Some (JString (''chap_'' @ py_format rt cnum))
    \<and> length (articles_of (chapters_of d' ! i)) = length (articles_of (chapters_of d ! i))
    \<and> article_at d i j = JObject kvs
    \<and> map_of kvs ''article_number'' = Some anum
    \<and> map_of kvs ''content'' = Some content
    \<and> py_join ''; '' (points_of (article_at d i j)) = Inr joined
    \<and> extract_keywords rt (JString (py_format rt content @ '' '' @ joined)) = Inr kws
    \<and> article_at d' i j =
        JObject (AList.update ''tags'' (JArray [title])
                (AList.update ''keywords'' kws
                (AList.update ''fullText'' (JString (py_format rt content @ '' '' @ joined))
                (AList.update ''id''
                   (JString ((''chap_'' @ py_format rt cnum) @ ''_art_'' @ py_format rt anum)) kvs))))"
proof -
  from enhance_database_Inr[OF run] have all2:
    "list_all2 (\<lambda>c c'. enhance_chapter rt c = Inr c') (chapters_of d) (chapters_of d')"
    by blast
  have "enhance_chapter rt (chapters_of d ! i) = Inr (chapters_of d' ! i)"
    using list_all2_nthD[OF all2 i] by simp
  from enhance_chapter_Inr[OF this] obtain ckvs cnum where
    c: "chapters_of d ! i = JObject ckvs"
    and cnum: "map_of ckvs ''chapter_number'' = Some cnum"
    and cid: "field ''id'' (chapters_of d' ! i) = Some (JString (''chap_'' @ py_format rt cnum))"
    and arts: "list_all2 (\<lambda>a a'. enhance_article rt (''chap_'' @ py_format rt cnum)
                 (JObject (AList.update ''id'' (JString (''chap_'' @ py_format rt cnum)) ckvs)) a = Inr a')
               (articles_of (chapters_of d ! i)) (articles_of (chapters_of d' ! i))"
    by blast
  from arts have len: "length (articles_of (chapters_of d' ! i)) = length (articles_of (chapters_of d ! i))"
    by (simp add: list_all2_lengthD)
  have "enhance_article rt (''chap_'' @ py_format rt cnum)
          (JObject (AList.update ''id'' (JString (''chap_'' @ py_format rt cnum)) ckvs))
          (article_at d i j) = Inr (article_at d' i j)"
    using list_all2_nthD[OF arts j] by (simp add: article_at_def)
  from enhance_article_Inr[OF this] obtain kvs anum content joined kws title where
    "article_at d i j = JObject kvs" "map_of kvs ''article_number'' = Some anum"
    "map_of kvs ''content'' = Some content"
    "py_join ''; '' (points_of (article_at d i j)) = Inr joined"
    "extract_keywords rt (JString (py_format rt content @ '' '' @ joined)) = Inr kws"
    "field ''chapter_title'' (JObject (AList.update ''id'' (JString (''chap_'' @ py_format rt cnum)) ckvs)) = Some title"
    "article_at d' i j =
        JObject (AList.update ''tags'' (JArray [title])
                (AList.update ''keywords'' kws
                (AList.update ''fullText'' (JString (py_format rt content @ '' '' @ joined))
                (AList.update ''id''
                   (JString ((''chap_'' @ py_format rt cnum) @ ''_art_'' @ py_format rt anum)) kvs))))"
    by blast
  moreover from this(6) have "map_of ckvs ''chapter_title'' = Some title"
    by (simp add: update_conv')
  ultimately show ?thesis using c cnum cid len by blast
qed


lemma example_articles:
  "articles_of (chapters_of example_document ! 0) = [example_article]"
  "article_at example_document 0 0 = example_article"
  "field ''chapter_title'' (chapters_of example_document ! 0) = Some (JString ''General'')"
  by (simp_all add: chapters_of_def articles_of_def article_at_def example_document_def)

lemma example_article_fields:
  "field ''article_number'' example_article = Some (JInt 2)"
  "field ''content'' example_article = Some (JString ''This is a test'')"
  "points_of example_article = JArray (map JString [''first point'', ''second''])"
  "field ''tags'' example_article = Some (JArray [JString ''old'', JString ''tags''])"
  by (simp_all add: example_article_def points_of_def)

lemma example_run: "enhance_database example_runtime example_document = Inr example_output"
  by code_simp

lemma example_output_articles:
  "chapters_of example_output ! 0 =
     JObject [(''chapter_number'', JInt 3), (''chapter_title'', JString ''General''),
                           (''articles'', JArray [article_at example_output 0 0]),
                           (''id'', JString ''chap_3'')]"
  "article_at example_output 0 0 =
     JObject [(''article_number'', JInt 2),
                                        (''content'', JString ''This is a test''),
                                        (''points'', JArray [JString ''first point'', JString ''second'']),
                                        (''tags'', JArray [JString ''General'']),
                                        (''id'', JString ''chap_3_art_2''),
                                        (''fullText'', JString ''This is a test first point; second''),
                                        (''keywords'', JArray [JString ''first'', JString ''point;'',
                                                               JString ''second''])]"
  by (simp_all add: chapters_of_def articles_of_def article_at_def example_output_def)


lemma example_bounds:
  "0 < length (chapters_of example_document)"
  "0 < length (articles_of (chapters_of example_document ! 0))"
  by (simp_all add: chapters_example example_articles)

lemma article_fields:
  assumes run: "enhance_database rt d = Inr d'"
    and i: "i < length (chapters_of d)"
    and j: "j < length (articles_of (chapters_of d ! i))"
  shows "\<exists>title content joined kws.
      field ''chapter_title'' (chapters_of d ! i) = Some title
    \<and> field ''content'' (article_at d i j) = Some content
    \<and> py_join ''; '' (points_of (article_at d i j)) = Inr joined
    \<and> extract_keywords rt (JString (py_format rt content @ '' '' @ joined)) = Inr kws
    \<and> field ''fullText'' (article_at d' i j) = Some (JString (py_format rt content @ '' '' @ joined))
    \<and> field ''keywords'' (article_at d' i j) = Some kws
    \<and> field ''tags'' (article_at d' i j) = Some (JArray [title])
    \<and> (\<forall>k. k \<notin> {''id'', ''fullText'', ''keywords'', ''tags''} \<longrightarrow>
           field k (article_at d' i j) = field k (article_at d i j))"
proof -
  from article_result[OF run i j] obtain ckvs title kvs content joined kws aid where
    c: "chapters_of d ! i = JObject ckvs" "map_of ckvs ''chapter_title'' = Some title"
    and a: "article_at d i j = JObject kvs" "map_of kvs ''content'' = Some content"
      "py_join ''; '' (points_of (article_at d i j)) = Inr joined"
      "extract_keywords rt (JString (py_format rt content @ '' '' @ joined)) = Inr kws"
    and a': "article_at d' i j =
        JObject (AList.update ''tags'' (JArray [title])
                (AList.update ''keywords'' kws
                (AList.update ''fullText'' (JString (py_format rt content @ '' '' @ joined))
                (AList.update ''id'' aid kvs))))"
    by blast
  have "field ''fullText'' (article_at d' i j) = Some (JString (py_format rt content @ '' '' @ joined))"
    "field ''keywords'' (article_at d' i j) = Some kws"
    "field ''tags'' (article_at d' i j) = Some (JArray [title])"
    "\<forall>k. k \<notin> {''id'', ''fullText'', ''keywords'', ''tags''} \<longrightarrow>
           field k (article_at d' i j) = field k (article_at d i j)"
    unfolding a' a(1) by (simp_all add: update_conv')
  with c a show ?thesis by simp
qed

declare digits.simps [simp del]

lemma digit_char_is_digit: "is_digit (digit_char d)"
proof -
  define k where "k = d mod 10"
  have "k < 10" by (simp add: k_def)
  then have "k = 0 \<or> k = 1 \<or> k = 2 \<or> k = 3 \<or> k = 4 \<or> k = 5 \<or> k = 6 \<or> k = 7
    \<or> k = 8 \<or> k = 9"
    by arith
  then have "is_digit (''0123456789'' ! k)"
    by (elim disjE) (simp_all add: is_digit_def)
  then show ?thesis by (simp add: digit_char_def k_def)
qed

lemma digit_char_mod: "digit_char (n mod 10) = digit_char n"
  by (simp add: digit_char_def)

lemma digits_1: "n < 10 \<Longrightarrow> digits n = [digit_char n]"
  by (subst digits.simps) simp

lemma digits_step: "10 \<le> n \<Longrightarrow> digits n = digits (n div 10) @ [digit_char n]"
  by (subst digits.simps) (simp add: digit_char_mod)

lemma digits_2: "10 \<le> n \<Longrightarrow> n < 100 \<Longrightarrow> digits n = [digit_char (n div 10), digit_char n]"
proof -
  assume a: "10 \<le> n" "n < 100"
  then have "n div 10 < 10" by arith
  with a show ?thesis by (simp add: digits_step digits_1)
qed

lemma digits_3: "100 \<le> n \<Longrightarrow> n < 1000 \<Longrightarrow>
    digits n = [digit_char (n div 100), digit_char (n div 10), digit_char n]"
proof -
  assume a: "100 \<le> n" "n < 1000"
  then have b: "10 \<le> n div 10" "n div 10 < 100" by arith+
  have "n div 10 div 10 = n div 100" by (simp add: div_mult2_eq[symmetric])
  with a digits_2[OF b] show ?thesis by (simp add: digits_step)
qed

lemma digits_4: "1000 \<le> n \<Longrightarrow> n < 10000 \<Longrightarrow>
    digits n = [digit_char (n div 1000), digit_char (n div 100), digit_char (n div 10), digit_char n]"
proof -
  assume a: "1000 \<le> n" "n < 10000"
  then have b: "100 \<le> n div 10" "n div 10 < 1000" by arith+
  have "n div 10 div 100 = n div 1000" "n div 10 div 10 = n div 100"
    by (simp_all add: div_mult2_eq[symmetric])
  with a digits_3[OF b] show ?thesis by (simp add: digits_step)
qed

lemma zero_pad_2: "1 \<le> n \<Longrightarrow> n < 100 \<Longrightarrow>
    \<exists>a b. zero_pad 2 (digits n) = [a, b] \<and> is_digit a \<and> is_digit b"
proof (cases "n < 10")
  case True
  then have "zero_pad 2 (digits n) = [CHR ''0'', digit_char n]"
    by (simp add: zero_pad_def digits_1 numeral_2_eq_2)
  moreover have "is_digit (CHR ''0'')" by (simp add: is_digit_def)
  ultimately show ?thesis using digit_char_is_digit by blast
next
  case False
  assume "n < 100"
  with False have "zero_pad 2 (digits n) = [digit_char (n div 10), digit_char n]"
    using digits_2[of n] by (simp add: zero_pad_def)
  then show ?thesis using digit_char_is_digit by blast
qed

lemma strftime_is_ymd:
  assumes "clock_ok t"
  shows "is_ymd (strftime_ymd t)"
proof -
  from assms have y: "zero_pad 4 (digits (year t))
      = [digit_char (year t div 1000), digit_char (year t div 100), digit_char (year t div 10),
         digit_char (year t)]"
    using digits_4[of "year t"] by (simp add: zero_pad_def clock_ok_def)
  from assms obtain a b where m: "zero_pad 2 (digits (month t)) = [a, b]" "is_digit a" "is_digit b"
    using zero_pad_2[of "month t"] by (auto simp: clock_ok_def)
  from assms obtain c e where d: "zero_pad 2 (digits (day t)) = [c, e]" "is_digit c" "is_digit e"
    using zero_pad_2[of "day t"] by (auto simp: clock_ok_def)
  show ?thesis
    unfolding strftime_ymd_def y m(1) d(1)
    using m d by (simp add: digit_char_is_digit)
qed


lemma enhance_database_steps:
  assumes "enhance_database rt d = Inr d'"
  shows "\<exists>d1. is_object d \<and> is_object d1
           \<and> (\<forall>k. k \<noteq> ''chapters'' \<longrightarrow> field k d1 = field k d)
           \<and> update_metadata rt d1 = Inr d'"
proof -
  from assms obtain kvs where d: "d = JObject kvs"
    by (cases d) (simp_all add: enhance_database_def)
  from assms d obtain items items' where
    it: "py_iter (case map_of kvs ''chapters'' of None \<Rightarrow> JArray [] | Some v \<Rightarrow> v) = Inr items"
    and m: "map_err (enhance_chapter rt) items = Inr items'"
    and um: "update_metadata rt (store_items (JObject kvs) ''chapters'' items') = Inr d'"
    by (auto simp: enhance_database_object bind_err_Inr_iff)
  from loop_store[OF _ it m] obtain kvs1 where
    k1: "store_items (JObject kvs) ''chapters'' items' = JObject kvs1"
    and others: "\<forall>k'. k' \<noteq> ''chapters'' \<longrightarrow> map_of kvs1 k' = map_of kvs k'"
    by auto
  have "is_object d \<and> is_object (JObject kvs1)
           \<and> (\<forall>k. k \<noteq> ''chapters'' \<longrightarrow> field k (JObject kvs1) = field k d)
           \<and> update_metadata rt (JObject kvs1) = Inr d'"
    using um[unfolded k1] others by (simp add: d)
  then show ?thesis by (rule exI)
qed

lemma enhance_database_metadata:
  assumes "enhance_database rt d = Inr d'"
  shows "field ''metadata'' d' =
           Some (JObject (AList.update ''last_updated'' (JString (strftime_ymd (now rt)))
                   (AList.update ''enhanced'' (JBool True) (metadata_entries d))))"
proof -
  from enhance_database_steps[OF assms] obtain d1 where
    others: "\<forall>k. k \<noteq> ''chapters'' \<longrightarrow> field k d1 = field k d"
    and um: "update_metadata rt d1 = Inr d'"
    by blast
  from others have same: "field ''metadata'' d1 = field ''metadata'' d"
    by simp
  from update_metadata_Inr[OF um] obtain kvs m where
    d1: "d1 = JObject kvs" and ok: "metadata_ok d1"
    and d': "d' = JObject (AList.update ''metadata'' (JObject m) kvs)"
    and none: "field ''metadata'' d1 = None \<longrightarrow>
               m = [(''enhanced'', JBool True), (''last_updated'', JString (strftime_ymd (now rt)))]"
    and some: "\<forall>m0. field ''metadata'' d1 = Some (JObject m0) \<longrightarrow>
               m = AList.update ''last_updated'' (JString (strftime_ymd (now rt)))
                     (AList.update ''enhanced'' (JBool True) m0)"
    by auto
  have "m = AList.update ''last_updated'' (JString (strftime_ymd (now rt)))
                   (AList.update ''enhanced'' (JBool True) (metadata_entries d))"
  proof (cases "field ''metadata'' d")
    case None
    with none same show ?thesis by (simp add: metadata_entries_def)
  next
    case (Some v)
    with ok same obtain m0 where "v = JObject m0"
      by (cases v) (simp_all add: metadata_ok_def)
    with Some some same show ?thesis by (simp add: metadata_entries_def)
  qed
  then show ?thesis by (simp add: d' update_conv')
qed

lemma example_metadata: "field ''metadata'' example_document = None"
  by (simp add: example_document_def)

lemma example_clock: "clock_ok (now example_runtime)"
  by (simp add: clock_ok_def example_runtime_def)

lemma no_chapters_run:
  "map_of kvs ''chapters'' = None \<Longrightarrow>
     enhance_database rt (JObject kvs) = update_metadata rt (JObject kvs)"
  by (simp add: enhance_database_object)

lemma no_articles_run:
  assumes "map_of kvs ''articles'' = None" and "map_of kvs ''chapter_number'' = Some num"
  shows "enhance_chapter rt (JObject kvs)
           = Inr (JObject (AList.update ''id'' (JString (''chap_'' @ py_format rt num)) kvs))"
  using assms by (simp add: enhance_chapter_object update_conv')

lemma valid_bare_example: "valid_document example_bare_document"
  by (simp add: valid_document_def shaped_document_def document_lacks_def metadata_ok_def
      chapters_of_def example_bare_document_def)

lemma bare_example_chapters: "field ''chapters'' example_bare_document = None"
  by (simp add: example_bare_document_def)

lemma missing_field_iff:
  "missing_field r \<longleftrightarrow>
     (\<exists>k. r = Inl (KeyError k)
        \<and> (k = ''chapter_number'' \<or> k = ''chapter_title'' \<or> k = ''article_number'' \<or> k = ''content''))"
proof (cases r)
  case (Inl e)
  then show ?thesis by (cases e) auto
next
  case (Inr x)
  then show ?thesis by simp
qed

lemma lacking_example:
  "shaped_document example_lacking_document" "document_lacks example_lacking_document"
  by (simp_all add: shaped_document_def shaped_chapter_def shaped_article_def document_lacks_def
      chapter_lacks_def article_lacks_def chapters_of_def articles_of_def
      example_lacking_document_def)

lemma store_items_field:
  "field k' (store_items (JObject kvs) k items) =
     (if k' = k then (case map_of kvs k of Some (JArray old) \<Rightarrow> Some (JArray items) | x \<Rightarrow> x)
      else map_of kvs k')"
  by (auto split: option.splits json.splits simp: update_conv')

lemma list_all2_post:
  assumes "list_all2 P xs ys" and "\<And>x y. x \<in> set xs \<Longrightarrow> P x y \<Longrightarrow> Q y"
  shows "list_all Q ys"
  using assms by (induction rule: list_all2_induct) auto

lemma enhance_chapter_articles_field:
  assumes "enhance_chapter rt c = Inr c'"
  shows "field ''articles'' c' =
           (case field ''articles'' c of
              Some (JArray old) \<Rightarrow> Some (JArray (articles_of c')) | x \<Rightarrow> x)"
proof -
  from assms obtain kvs where c: "c = JObject kvs"
    by (cases c) (simp_all add: enhance_chapter_def)
  from assms c obtain num where num: "map_of kvs ''chapter_number'' = Some num"
    by (auto simp: enhance_chapter_object split: option.splits)
  define kvs1 where "kvs1 = AList.update ''id'' (JString (''chap_'' @ py_format rt num)) kvs"
  from assms c num obtain items' where
    c': "c' = store_items (JObject kvs1) ''articles'' items'"
    by (auto simp: enhance_chapter_object bind_err_Inr_iff kvs1_def)
  have a1: "map_of kvs1 ''articles'' = map_of kvs ''articles''"
    by (simp add: kvs1_def update_conv')
  have f: "field ''articles'' c' =
      (case map_of kvs ''articles'' of Some (JArray old) \<Rightarrow> Some (JArray items') | x \<Rightarrow> x)"
    unfolding c' by (simp add: store_items_field a1 del: store_items.simps)
  show ?thesis
    unfolding articles_of_def f c
    by (simp split: option.splits json.splits)
qed

lemma enhance_database_chapters_field:
  assumes "enhance_database rt d = Inr d'"
  shows "field ''chapters'' d' =
           (case field ''chapters'' d of
              Some (JArray old) \<Rightarrow> Some (JArray (chapters_of d')) | x \<Rightarrow> x)"
proof -
  from assms obtain kvs where d: "d = JObject kvs"
    by (cases d) (simp_all add: enhance_database_def)
  from assms d obtain items' where
    um: "update_metadata rt (store_items (JObject kvs) ''chapters'' items') = Inr d'"
    by (auto simp: enhance_database_object bind_err_Inr_iff)
  from update_metadata_Inr[OF um] obtain kvs1 m where
    d1: "store_items (JObject kvs) ''chapters'' items' = JObject kvs1"
    and d': "d' = JObject (AList.update ''metadata'' (JObject m) kvs1)"
    by auto
  have "field ''chapters'' d' = field ''chapters'' (store_items (JObject kvs) ''chapters'' items')"
    unfolding d' d1 by (simp add: update_conv')
  then have f: "field ''chapters'' d' =
      (case map_of kvs ''chapters'' of Some (JArray old) \<Rightarrow> Some (JArray items') | x \<Rightarrow> x)"
    by (simp add: store_items_field del: store_items.simps)
  show ?thesis
    unfolding chapters_of_def f d
    by (simp split: option.splits json.splits)
qed

lemma article_preserved:
  assumes "shaped_article a" and "enhance_article rt cid ch a = Inr a'"
  shows "shaped_article a' \<and> \<not> article_lacks a'"
proof -
  from enhance_article_Inr[OF assms(2)] obtain kvs num content title kws ft aid where
    a: "a = JObject kvs" "map_of kvs ''article_number'' = Some num"
      "map_of kvs ''content'' = Some content"
    and a': "a' = JObject (AList.update ''tags'' title
                  (AList.update ''keywords'' kws
                  (AList.update ''fullText'' ft
                  (AList.update ''id'' aid kvs))))"
    by auto
  have "field ''points'' a' = field ''points'' a"
    "field ''article_number'' a' = Some num" "field ''content'' a' = Some content"
    using a by (simp_all add: a' update_conv')
  with assms(1) show ?thesis
    by (simp add: shaped_article_def article_lacks_def a')
qed

lemma chapter_preserved:
  assumes sh: "shaped_chapter c" and run: "enhance_chapter rt c = Inr c'"
  shows "shaped_chapter c' \<and> \<not> chapter_lacks c' \<and> titled_chapter c'"
proof -
  from enhance_chapter_Inr[OF run] obtain kvs num where
    c: "c = JObject kvs" and num: "map_of kvs ''chapter_number'' = Some num"
    and obj: "is_object c'"
    and arts: "list_all2 (\<lambda>a a'. enhance_article rt (''chap_'' @ py_format rt num)
                 (JObject (AList.update ''id'' (JString (''chap_'' @ py_format rt num)) kvs)) a = Inr a')
               (articles_of c) (articles_of c')"
    and others: "\<forall>k. k \<noteq> ''id'' \<and> k \<noteq> ''articles'' \<longrightarrow> field k c' = field k c"
    by auto
  define ch1 where "ch1 = JObject (AList.update ''id'' (JString (''chap_'' @ py_format rt num)) kvs)"
  have each: "list_all (\<lambda>a'. shaped_article a' \<and> \<not> article_lacks a') (articles_of c')"
  proof (rule list_all2_post[OF arts])
    fix a a'
    assume "a \<in> set (articles_of c)"
      and "enhance_article rt (''chap_'' @ py_format rt num)
             (JObject (AList.update ''id'' (JString (''chap_'' @ py_format rt num)) kvs)) a = Inr a'"
    moreover from this(1) shaped_chapter_articles[OF sh] have "shaped_article a"
      by (simp add: list_all_iff)
    ultimately show "shaped_article a' \<and> \<not> article_lacks a'"
      using article_preserved by simp
  qed
  then have shaped: "list_all shaped_article (articles_of c')"
    and nolack: "\<not> list_ex article_lacks (articles_of c')"
    by (simp_all add: list_all_iff list_ex_iff)
  from sh have "field ''articles'' c = None \<or> (\<exists>old. field ''articles'' c = Some (JArray old))"
    by (auto simp: shaped_chapter_def split: option.splits json.splits)
  with enhance_chapter_articles_field[OF run]
  have "field ''articles'' c' = None \<or> field ''articles'' c' = Some (JArray (articles_of c'))"
    by auto
  with obj shaped have s': "shaped_chapter c'"
    by (auto simp: shaped_chapter_def)
  from others num c have "field ''chapter_number'' c' = Some num" by simp
  with nolack have l': "\<not> chapter_lacks c'" by (simp add: chapter_lacks_def)
  have t': "titled_chapter c'"
  proof (cases "articles_of c'")
    case Nil
    then show ?thesis by (simp add: titled_chapter_def)
  next
    case (Cons a' as')
    with arts obtain a as where "articles_of c = a # as"
      and "enhance_article rt (''chap_'' @ py_format rt num)
             (JObject (AList.update ''id'' (JString (''chap_'' @ py_format rt num)) kvs)) a = Inr a'"
      by (auto simp: list_all2_Cons2)
    from enhance_article_Inr[OF this(2)] obtain title where
      "field ''chapter_title'' (JObject (AList.update ''id'' (JString (''chap_'' @ py_format rt num)) kvs))
         = Some title"
      by auto
    then have "field ''chapter_title'' c = Some title" by (simp add: c update_conv')
    with others have "field ''chapter_title'' c' = Some title" by simp
    then show ?thesis by (simp add: titled_chapter_def)
  qed
  from s' l' t' show ?thesis by simp
qed

lemma document_preserved:
  assumes v: "valid_document d" and run: "enhance_database rt d = Inr d'"
  shows "valid_document d'"
proof -
  from v have sh: "shaped_document d" by (simp add: valid_document_def)
  from enhance_database_Inr[OF run] obtain m where
    obj: "is_object d'"
    and chs: "list_all2 (\<lambda>c c'. enhance_chapter rt c = Inr c') (chapters_of d) (chapters_of d')"
    and md: "field ''metadata'' d' = Some (JObject m)"
    by auto
  have each: "list_all (\<lambda>c'. shaped_chapter c' \<and> \<not> chapter_lacks c' \<and> titled_chapter c') (chapters_of d')"
  proof (rule list_all2_post[OF chs])
    fix c c'
    assume "c \<in> set (chapters_of d)" and r: "enhance_chapter rt c = Inr c'"
    with shaped_document_chapters[OF sh] have "shaped_chapter c"
      by (simp add: list_all_iff)
    from chapter_preserved[OF this r]
    show "shaped_chapter c' \<and> \<not> chapter_lacks c' \<and> titled_chapter c'" .
  qed
  from sh have "field ''chapters'' d = None \<or> (\<exists>old. field ''chapters'' d = Some (JArray old))"
    by (auto simp: shaped_document_def split: option.splits json.splits)
  with enhance_database_chapters_field[OF run]
  have "field ''chapters'' d' = None \<or> field ''chapters'' d' = Some (JArray (chapters_of d'))"
    by auto
  with obj each have "shaped_document d'"
    by (auto simp: shaped_document_def list_all_iff)
  moreover from each have "\<not> document_lacks d'" "list_all titled_chapter (chapters_of d')"
    by (simp_all add: document_lacks_def list_all_iff list_ex_iff)
  moreover from md have "metadata_ok d'" by (simp add: metadata_ok_def)
  ultimately show ?thesis by (simp add: valid_document_def)
qed

lemma example_run_later:
  "enhance_database example_runtime_later example_output = Inr example_output_later"
  by code_simp


lemma py_format_cong: "repr_other rt2 = repr_other rt1 \<Longrightarrow> py_format rt2 v = py_format rt1 v"
  by (cases v) simp_all

lemma keyword_set_extract:
  assumes "set_order_ok rt" and "extract_keywords rt (JString t) = Inr kws"
    and "field ''keywords'' a = Some kws"
  shows "keyword_set a = JString ` set (map py_lower (filter (\<lambda>word. length word > 4) (py_split t)))"
  using assms by (auto simp: keyword_set_def set_order_ok_def)

lemma chapter_fields:
  assumes run: "enhance_database rt d = Inr d'" and i: "i < length (chapters_of d)"
  shows "\<exists>cnum. field ''chapter_number'' (chapters_of d ! i) = Some cnum
           \<and> field ''id'' (chapters_of d' ! i) = Some (JString (''chap_'' @ py_format rt cnum))
           \<and> field ''chapter_number'' (chapters_of d' ! i) = Some cnum
           \<and> field ''chapter_title'' (chapters_of d' ! i) = field ''chapter_title'' (chapters_of d ! i)
           \<and> length (articles_of (chapters_of d' ! i)) = length (articles_of (chapters_of d ! i))"
proof -
  from enhance_database_Inr[OF run] have all2:
    "list_all2 (\<lambda>c c'. enhance_chapter rt c = Inr c') (chapters_of d) (chapters_of d')"
    by auto
  have "enhance_chapter rt (chapters_of d ! i) = Inr (chapters_of d' ! i)"
    using list_all2_nthD[OF all2 i] by simp
  from enhance_chapter_Inr[OF this] obtain kvs cnum where
    c: "chapters_of d ! i = JObject kvs" "map_of kvs ''chapter_number'' = Some cnum"
    and cid: "field ''id'' (chapters_of d' ! i) = Some (JString (''chap_'' @ py_format rt cnum))"
    and arts: "list_all2 (\<lambda>a a'. enhance_article rt (''chap_'' @ py_format rt cnum)
                 (JObject (AList.update ''id'' (JString (''chap_'' @ py_format rt cnum)) kvs)) a = Inr a')
               (articles_of (chapters_of d ! i)) (articles_of (chapters_of d' ! i))"
    and others: "\<forall>k. k \<noteq> ''id'' \<and> k \<noteq> ''articles'' \<longrightarrow>
                   field k (chapters_of d' ! i) = field k (chapters_of d ! i)"
    by auto
  from others have "field ''chapter_number'' (chapters_of d' ! i) = field ''chapter_number'' (chapters_of d ! i)"
    "field ''chapter_title'' (chapters_of d' ! i) = field ''chapter_title'' (chapters_of d ! i)"
    by simp_all
  moreover from arts have "length (articles_of (chapters_of d' ! i)) = length (articles_of (chapters_of d ! i))"
    by (simp add: list_all2_lengthD)
  ultimately show ?thesis using c cid by simp
qed

lemma article_ids:
  assumes run: "enhance_database rt d = Inr d'"
    and i: "i < length (chapters_of d)"
    and j: "j < length (articles_of (chapters_of d ! i))"
  shows "\<exists>cnum anum.
      field ''chapter_number'' (chapters_of d ! i) = Some cnum
    \<and> field ''article_number'' (article_at d i j) = Some anum
    \<and> field ''id'' (article_at d' i j)
        = Some (JString ((''chap_'' @ py_format rt cnum) @ ''_art_'' @ py_format rt anum))"
proof -
  from article_result[OF run i j] obtain ckvs cnum kvs anum t k f where
    c: "chapters_of d ! i = JObject ckvs" "map_of ckvs ''chapter_number'' = Some cnum"
    and a: "article_at d i j = JObject kvs" "map_of kvs ''article_number'' = Some anum"
    and a': "article_at d' i j =
        JObject (AList.update ''tags'' t
                (AList.update ''keywords'' k
                (AList.update ''fullText'' f
                (AList.update ''id''
                   (JString ((''chap_'' @ py_format rt cnum) @ ''_art_'' @ py_format rt anum)) kvs))))"
    by auto
  have "field ''id'' (article_at d' i j)
        = Some (JString ((''chap_'' @ py_format rt cnum) @ ''_art_'' @ py_format rt anum))"
    unfolding a' by (simp add: update_conv')
  with c a show ?thesis by simp
qed


lemma second_run_article:
  assumes run1: "enhance_database rt1 d = Inr d1" and run2: "enhance_database rt2 d1 = Inr d2"
    and so1: "set_order_ok rt1" and so2: "set_order_ok rt2"
    and repr: "repr_other rt2 = repr_other rt1"
    and i: "i < length (chapters_of d)"
    and j: "j < length (articles_of (chapters_of d ! i))"
  shows "field ''id'' (article_at d2 i j) = field ''id'' (article_at d1 i j)
       \<and> field ''fullText'' (article_at d2 i j) = field ''fullText'' (article_at d1 i j)
       \<and> field ''tags'' (article_at d2 i j) = field ''tags'' (article_at d1 i j)
       \<and> keyword_set (article_at d2 i j) = keyword_set (article_at d1 i j)"
proof -
  from enhance_database_Inr[OF run1] have
    "list_all2 (\<lambda>c c'. enhance_chapter rt1 c = Inr c') (chapters_of d) (chapters_of d1)"
    by auto
  then have len: "length (chapters_of d1) = length (chapters_of d)"
    by (simp add: list_all2_lengthD)
  with i have i1: "i < length (chapters_of d1)" by simp
  from chapter_fields[OF run1 i] obtain cnum where
    cn: "field ''chapter_number'' (chapters_of d ! i) = Some cnum"
    and cn1: "field ''chapter_number'' (chapters_of d1 ! i) = Some cnum"
    and ct1: "field ''chapter_title'' (chapters_of d1 ! i) = field ''chapter_title'' (chapters_of d ! i)"
    and alen: "length (articles_of (chapters_of d1 ! i)) = length (articles_of (chapters_of d ! i))"
    by auto
  from j alen have j1: "j < length (articles_of (chapters_of d1 ! i))" by simp
  from article_fields[OF run1 i j] obtain title content joined kws where
    t: "field ''chapter_title'' (chapters_of d ! i) = Some title"
    and c: "field ''content'' (article_at d i j) = Some content"
    and jn: "py_join ''; '' (points_of (article_at d i j)) = Inr joined"
    and k: "extract_keywords rt1 (JString (py_format rt1 content @ '' '' @ joined)) = Inr kws"
    and ft: "field ''fullText'' (article_at d1 i j) = Some (JString (py_format rt1 content @ '' '' @ joined))"
    and kw: "field ''keywords'' (article_at d1 i j) = Some kws"
    and tg: "field ''tags'' (article_at d1 i j) = Some (JArray [title])"
    and keep: "\<forall>k. k \<notin> {''id'', ''fullText'', ''keywords'', ''tags''} \<longrightarrow>
           field k (article_at d1 i j) = field k (article_at d i j)"
    by auto
  from keep have same: "field ''content'' (article_at d1 i j) = field ''content'' (article_at d i j)"
    "field ''points'' (article_at d1 i j) = field ''points'' (article_at d i j)"
    "field ''article_number'' (article_at d1 i j) = field ''article_number'' (article_at d i j)"
    by simp_all
  then have pts: "points_of (article_at d1 i j) = points_of (article_at d i j)"
    by (simp add: points_of_def)
  from article_fields[OF run2 i1 j1] obtain title2 content2 joined2 kws2 where
    t2: "field ''chapter_title'' (chapters_of d1 ! i) = Some title2"
    and c2: "field ''content'' (article_at d1 i j) = Some content2"
    and jn2: "py_join ''; '' (points_of (article_at d1 i j)) = Inr joined2"
    and k2: "extract_keywords rt2 (JString (py_format rt2 content2 @ '' '' @ joined2)) = Inr kws2"
    and ft2: "field ''fullText'' (article_at d2 i j) = Some (JString (py_format rt2 content2 @ '' '' @ joined2))"
    and kw2: "field ''keywords'' (article_at d2 i j) = Some kws2"
    and tg2: "field ''tags'' (article_at d2 i j) = Some (JArray [title2])"
    by auto
  from t t2 ct1 have title: "title2 = title" by simp
  from c c2 same have content: "content2 = content" by simp
  from jn jn2 pts have joined: "joined2 = joined" by simp
  have fmt: "py_format rt2 v = py_format rt1 v" for v
    by (rule py_format_cong[OF repr])
  from article_ids[OF run1 i j] cn obtain anum where
    an: "field ''article_number'' (article_at d i j) = Some anum"
    and id1: "field ''id'' (article_at d1 i j)
        = Some (JString ((''chap_'' @ py_format rt1 cnum) @ ''_art_'' @ py_format rt1 anum))"
    by auto
  from article_ids[OF run2 i1 j1] cn1 an same have
    id2: "field ''id'' (article_at d2 i j)
        = Some (JString ((''chap_'' @ py_format rt2 cnum) @ ''_art_'' @ py_format rt2 anum))"
    by auto
  have "field ''id'' (article_at d2 i j) = field ''id'' (article_at d1 i j)"
    by (simp add: id1 id2 fmt)
  moreover have "field ''fullText'' (article_at d2 i j) = field ''fullText'' (article_at d1 i j)"
    by (simp add: ft ft2 fmt content joined)
  moreover have "field ''tags'' (article_at d2 i j) = field ''tags'' (article_at d1 i j)"
    by (simp add: tg tg2 title)
  moreover have "keyword_set (article_at d2 i j) = keyword_set (article_at d1 i j)"
    using keyword_set_extract[OF so1 k kw] keyword_set_extract[OF so2 k2 kw2]
    by (simp add: fmt content joined)
  ultimately show ?thesis by simp
qed


lemma example_set_orders: "set_order_ok example_runtime" "set_order_ok example_runtime_later"
  by (simp_all add: set_order_ok_def example_runtime_def example_runtime_later_def)

lemma example_reprs: "repr_other example_runtime_later = repr_other example_runtime"
  by (simp add: example_runtime_def example_runtime_later_def)

section \<open>The claims\<close>

text \<open>
  C1. For every Chapter of a valid input document, the run succeeds and the Chapter's
  derived \<open>id\<close> in the output is the string \<open>chap_\<close> followed by the Chapter's
  \<open>chapter_number\<close> as an f-string renders it; a Chapter whose \<open>chapter_number\<close> is
  the integer 3 gets the \<open>id\<close> \<open>chap_3\<close> exactly.
\<close>

theorem chapter_id_derived:
  assumes "valid_document d"
  shows "\<exists>d'. enhance_database rt d = Inr d'
           \<and> length (chapters_of d') = length (chapters_of d)
           \<and> (\<forall>i<length (chapters_of d). \<exists>num.
                 field ''chapter_number'' (chapters_of d ! i) = Some num
               \<and> field ''id'' (chapters_of d' ! i) = Some (JString (''chap_'' @ py_format rt num))
               \<and> (num = JInt 3 \<longrightarrow> field ''id'' (chapters_of d' ! i) = Some (JString ''chap_3'')))"
proof -
  from assms have "shaped_document d" by (simp add: valid_document_def)
  from document_outcome[OF this, of rt] assms obtain d' where run: "enhance_database rt d = Inr d'"
    by blast
  from enhance_database_Inr[OF run] have all2:
    "list_all2 (\<lambda>c c'. enhance_chapter rt c = Inr c') (chapters_of d) (chapters_of d')"
    by blast
  then have len: "length (chapters_of d') = length (chapters_of d)"
    by (simp add: list_all2_lengthD)
  have "\<exists>num. field ''chapter_number'' (chapters_of d ! i) = Some num
               \<and> field ''id'' (chapters_of d' ! i) = Some (JString (''chap_'' @ py_format rt num))
               \<and> (num = JInt 3 \<longrightarrow> field ''id'' (chapters_of d' ! i) = Some (JString ''chap_3''))"
    if "i < length (chapters_of d)" for i
  proof -
    have "enhance_chapter rt (chapters_of d ! i) = Inr (chapters_of d' ! i)"
      using list_all2_nthD[OF all2 that] by simp
    from enhance_chapter_Inr[OF this] obtain kvs num where
      "chapters_of d ! i = JObject kvs" "map_of kvs ''chapter_number'' = Some num"
      "field ''id'' (chapters_of d' ! i) = Some (JString (''chap_'' @ py_format rt num))"
      by blast
    then show ?thesis by (auto simp: str_int_small)
  qed
  with run len show ?thesis by blast
qed

theorem chapter_id_derived_witness:
  "\<exists>d'. enhance_database example_runtime example_document = Inr d'
     \<and> field ''id'' (chapters_of d' ! 0) = Some (JString ''chap_3'')"
proof -
  from chapter_id_derived[OF valid_example, of example_runtime] obtain d' where
    run: "enhance_database example_runtime example_document = Inr d'"
    and each: "\<forall>i<length (chapters_of example_document). \<exists>num.
                 field ''chapter_number'' (chapters_of example_document ! i) = Some num
               \<and> field ''id'' (chapters_of d' ! i) = Some (JString (''chap_'' @ py_format example_runtime num))
               \<and> (num = JInt 3 \<longrightarrow> field ''id'' (chapters_of d' ! i) = Some (JString ''chap_3''))"
    by blast
  have "0 < length (chapters_of example_document)" by (simp add: chapters_example)
  with each have "\<exists>num.
                 field ''chapter_number'' (chapters_of example_document ! 0) = Some num
               \<and> (num = JInt 3 \<longrightarrow> field ''id'' (chapters_of d' ! 0) = Some (JString ''chap_3''))"
    by blast
  then have "field ''id'' (chapters_of d' ! 0) = Some (JString ''chap_3'')"
    by (simp add: chapters_of_def example_document_def)
  with run show ?thesis by blast
qed

text \<open>
  C2. For every Article of every Chapter of a valid input document, the Article's derived
  \<open>id\<close> is the parent Chapter's derived \<open>id\<close>, then \<open>_art_\<close>, then the Article's
  \<open>article_number\<close> as an f-string renders it; article number 2 under the chapter id
  \<open>chap_3\<close> gets \<open>chap_3_art_2\<close> exactly.
\<close>

theorem article_id_derived:
  assumes "valid_document d"
  shows "\<exists>d'. enhance_database rt d = Inr d'
           \<and> (\<forall>i<length (chapters_of d). \<forall>j<length (articles_of (chapters_of d ! i)).
                \<exists>cid anum.
                  field ''id'' (chapters_of d' ! i) = Some (JString cid)
                \<and> field ''article_number'' (article_at d i j) = Some anum
                \<and> field ''id'' (article_at d' i j) = Some (JString (cid @ ''_art_'' @ py_format rt anum))
                \<and> (cid = ''chap_3'' \<and> anum = JInt 2 \<longrightarrow>
                     field ''id'' (article_at d' i j) = Some (JString ''chap_3_art_2'')))"
proof -
  from valid_run[OF assms] obtain d' where run: "enhance_database rt d = Inr d'" by blast
  have "\<exists>cid anum.
                  field ''id'' (chapters_of d' ! i) = Some (JString cid)
                \<and> field ''article_number'' (article_at d i j) = Some anum
                \<and> field ''id'' (article_at d' i j) = Some (JString (cid @ ''_art_'' @ py_format rt anum))
                \<and> (cid = ''chap_3'' \<and> anum = JInt 2 \<longrightarrow>
                     field ''id'' (article_at d' i j) = Some (JString ''chap_3_art_2''))"
    if "i < length (chapters_of d)" and "j < length (articles_of (chapters_of d ! i))" for i j
  proof -
    from article_result[OF run that] obtain cnum kvs anum rest where
      cid: "field ''id'' (chapters_of d' ! i) = Some (JString (''chap_'' @ py_format rt cnum))"
      and a: "article_at d i j = JObject kvs" "map_of kvs ''article_number'' = Some anum"
      and a': "article_at d' i j = JObject (AList.update ''tags'' (fst rest)
                (AList.update ''keywords'' (fst (snd rest))
                (AList.update ''fullText'' (snd (snd rest))
                (AList.update ''id''
                   (JString ((''chap_'' @ py_format rt cnum) @ ''_art_'' @ py_format rt anum)) kvs))))"
      by (metis fst_conv snd_conv)
    have "field ''id'' (article_at d' i j)
            = Some (JString ((''chap_'' @ py_format rt cnum) @ ''_art_'' @ py_format rt anum))"
      unfolding a' by (simp add: update_conv')
    with cid a show ?thesis by (auto simp: str_int_small)
  qed
  with run show ?thesis by blast
qed

theorem article_id_derived_witness:
  "\<exists>d'. enhance_database example_runtime example_document = Inr d'
     \<and> field ''id'' (chapters_of d' ! 0) = Some (JString ''chap_3'')
     \<and> field ''id'' (article_at d' 0 0) = Some (JString ''chap_3_art_2'')"
proof -
  from article_id_derived[OF valid_example, of example_runtime] obtain d' where
    run: "enhance_database example_runtime example_document = Inr d'"
    and each: "\<forall>i<length (chapters_of example_document).
               \<forall>j<length (articles_of (chapters_of example_document ! i)).
                \<exists>cid anum.
                  field ''id'' (chapters_of d' ! i) = Some (JString cid)
                \<and> field ''article_number'' (article_at example_document i j) = Some anum
                \<and> field ''id'' (article_at d' i j)
                    = Some (JString (cid @ ''_art_'' @ py_format example_runtime anum))
                \<and> (cid = ''chap_3'' \<and> anum = JInt 2 \<longrightarrow>
                     field ''id'' (article_at d' i j) = Some (JString ''chap_3_art_2''))"
    by blast
  have b: "0 < length (chapters_of example_document)"
    "0 < length (articles_of (chapters_of example_document ! 0))"
    by (simp_all add: chapters_example example_articles)
  from each b obtain cid anum where
    c: "field ''id'' (chapters_of d' ! 0) = Some (JString cid)"
    and n: "field ''article_number'' (article_at example_document 0 0) = Some anum"
    and imp: "cid = ''chap_3'' \<and> anum = JInt 2 \<longrightarrow>
                     field ''id'' (article_at d' 0 0) = Some (JString ''chap_3_art_2'')"
    by blast
  from n have anum: "anum = JInt 2" by (simp add: example_articles example_article_fields)
  have "enhance_database example_runtime example_document = Inr d' \<Longrightarrow>
          field ''id'' (chapters_of d' ! 0) = Some (JString ''chap_3'')"
    by (auto simp: enhance_database_def example_document_def example_article_def
        enhance_chapter_def enhance_article_def py_join_def update_metadata_def chapters_of_def
        str_int_small)
  with run c have "cid = ''chap_3''" by simp
  with c anum imp run show ?thesis by blast
qed

text \<open>
  C3. For every Article of a valid input document, the derived \<open>fullText\<close> is the
  \<open>content\<close> (as an f-string renders it, a string being rendered as itself), one space,
  and the \<open>points\<close> joined with a semicolon and a space; when \<open>points\<close> is absent
  or empty, \<open>fullText\<close> is the content followed by the single space and nothing else.
\<close>

theorem article_fullText:
  assumes "valid_document d"
  shows "\<exists>d'. enhance_database rt d = Inr d'
           \<and> (\<forall>i<length (chapters_of d). \<forall>j<length (articles_of (chapters_of d ! i)).
                \<exists>content ps.
                  field ''content'' (article_at d i j) = Some content
                \<and> points_of (article_at d i j) = JArray (map JString ps)
                \<and> (field ''points'' (article_at d i j) = None \<longrightarrow> ps = [])
                \<and> field ''fullText'' (article_at d' i j)
                    = Some (JString (py_format rt content @ '' '' @ join_strs ''; '' ps))
                \<and> (\<forall>s. content = JString s \<longrightarrow>
                     field ''fullText'' (article_at d' i j)
                       = Some (JString (s @ '' '' @ join_strs ''; '' ps)))
                \<and> (\<forall>s. content = JString s \<and> ps = [] \<longrightarrow>
                     field ''fullText'' (article_at d' i j) = Some (JString (s @ '' ''))))"
proof -
  from valid_run[OF assms] obtain d' where run: "enhance_database rt d = Inr d'" by blast
  have "\<exists>content ps.
                  field ''content'' (article_at d i j) = Some content
                \<and> points_of (article_at d i j) = JArray (map JString ps)
                \<and> (field ''points'' (article_at d i j) = None \<longrightarrow> ps = [])
                \<and> field ''fullText'' (article_at d' i j)
                    = Some (JString (py_format rt content @ '' '' @ join_strs ''; '' ps))
                \<and> (\<forall>s. content = JString s \<longrightarrow>
                     field ''fullText'' (article_at d' i j)
                       = Some (JString (s @ '' '' @ join_strs ''; '' ps)))
                \<and> (\<forall>s. content = JString s \<and> ps = [] \<longrightarrow>
                     field ''fullText'' (article_at d' i j) = Some (JString (s @ '' '')))"
    if "i < length (chapters_of d)" and "j < length (articles_of (chapters_of d ! i))" for i j
  proof -
    from shaped_article_join[OF valid_article_shaped[OF assms that], of "''; ''"] obtain ps where
      ps: "points_of (article_at d i j) = JArray (map JString ps)"
      and join: "py_join ''; '' (points_of (article_at d i j)) = Inr (join_strs ''; '' ps)"
      by blast
    from article_fields[OF run that] join obtain content where
      c: "field ''content'' (article_at d i j) = Some content"
      and ft: "field ''fullText'' (article_at d' i j)
                 = Some (JString (py_format rt content @ '' '' @ join_strs ''; '' ps))"
      by auto
    have absent: "field ''points'' (article_at d i j) = None \<longrightarrow> ps = []"
      using ps by (auto simp: points_of_def)
    from c ps absent ft show ?thesis by auto
  qed
  with run show ?thesis by blast
qed

theorem article_fullText_witness:
  "\<exists>d'. enhance_database example_runtime example_document = Inr d'
     \<and> field ''content'' (article_at example_document 0 0) = Some (JString ''This is a test'')
     \<and> points_of (article_at example_document 0 0)
         = JArray [JString ''first point'', JString ''second'']
     \<and> field ''fullText'' (article_at d' 0 0)
         = Some (JString ''This is a test first point; second'')"
proof -
  from article_fullText[OF valid_example, of example_runtime] obtain d' where
    run: "enhance_database example_runtime example_document = Inr d'"
    by blast
  with example_run have "d' = example_output" by simp
  then have "field ''fullText'' (article_at d' 0 0)
         = Some (JString ''This is a test first point; second'')"
    by (simp add: example_output_articles)
  with run show ?thesis
    by (simp add: example_articles example_article_fields)
qed

text \<open>
  C9. For every Article of a valid input document, the \<open>tags\<close> of the output Article is
  the one-element list holding the parent Chapter's \<open>chapter_title\<close>, whatever \<open>tags\<close>
  the input Article had.
\<close>

theorem article_tags:
  assumes "valid_document d"
  shows "\<exists>d'. enhance_database rt d = Inr d'
           \<and> (\<forall>i<length (chapters_of d). \<forall>j<length (articles_of (chapters_of d ! i)).
                \<exists>title.
                  field ''chapter_title'' (chapters_of d ! i) = Some title
                \<and> field ''tags'' (article_at d' i j) = Some (JArray [title]))"
proof -
  from valid_run[OF assms] obtain d' where run: "enhance_database rt d = Inr d'" by blast
  have "\<exists>title. field ''chapter_title'' (chapters_of d ! i) = Some title
                \<and> field ''tags'' (article_at d' i j) = Some (JArray [title])"
    if "i < length (chapters_of d)" and "j < length (articles_of (chapters_of d ! i))" for i j
    using article_fields[OF run that] by blast
  with run show ?thesis by blast
qed

theorem article_tags_witness:
  "\<exists>d'. enhance_database example_runtime example_document = Inr d'
     \<and> field ''tags'' (article_at example_document 0 0)
         = Some (JArray [JString ''old'', JString ''tags''])
     \<and> field ''tags'' (article_at d' 0 0) = Some (JArray [JString ''General''])"
proof -
  from article_tags[OF valid_example, of example_runtime] obtain d' where
    run: "enhance_database example_runtime example_document = Inr d'"
    and each: "\<forall>i<length (chapters_of example_document).
                \<forall>j<length (articles_of (chapters_of example_document ! i)).
                \<exists>title.
                  field ''chapter_title'' (chapters_of example_document ! i) = Some title
                \<and> field ''tags'' (article_at d' i j) = Some (JArray [title])"
    by blast
  from each example_bounds obtain title where
    "field ''chapter_title'' (chapters_of example_document ! 0) = Some title"
    "field ''tags'' (article_at d' 0 0) = Some (JArray [title])"
    by blast
  with run show ?thesis
    by (auto simp: example_articles example_article_fields)
qed

text \<open>
  C5. For every valid input document, with or without a \<open>metadata\<close> key, the run
  succeeds and the output's \<open>metadata\<close> is a dict in which \<open>enhanced\<close> is true and
  \<open>last_updated\<close> is the date of the clock rendered by \<^verbatim>\<open>strftime('%Y-%m-%d')\<close>;
  for a clock whose year has four digits this string is four digits, a hyphen, two
  digits, a hyphen and two digits. When the input has no \<open>metadata\<close>, the output's
  \<open>metadata\<close> holds exactly these two entries.
\<close>

theorem metadata_enhanced:
  assumes "valid_document d" and "clock_ok (now rt)"
  shows "\<exists>d' m. enhance_database rt d = Inr d'
           \<and> field ''metadata'' d' = Some (JObject m)
           \<and> map_of m ''enhanced'' = Some (JBool True)
           \<and> map_of m ''last_updated'' = Some (JString (strftime_ymd (now rt)))
           \<and> is_ymd (strftime_ymd (now rt))
           \<and> (field ''metadata'' d = None \<longrightarrow>
                 m = [(''enhanced'', JBool True),
                      (''last_updated'', JString (strftime_ymd (now rt)))])"
proof -
  from valid_run[OF assms(1)] obtain d' where run: "enhance_database rt d = Inr d'" by blast
  define m where "m = AList.update ''last_updated'' (JString (strftime_ymd (now rt)))
                   (AList.update ''enhanced'' (JBool True) (metadata_entries d))"
  have "field ''metadata'' d' = Some (JObject m)"
    using enhance_database_metadata[OF run] by (simp add: m_def)
  moreover have "map_of m ''enhanced'' = Some (JBool True)"
    "map_of m ''last_updated'' = Some (JString (strftime_ymd (now rt)))"
    by (simp_all add: m_def update_conv')
  moreover have "field ''metadata'' d = None \<longrightarrow>
                 m = [(''enhanced'', JBool True),
                      (''last_updated'', JString (strftime_ymd (now rt)))]"
    by (simp add: m_def metadata_entries_def)
  ultimately show ?thesis
    using run strftime_is_ymd[OF assms(2)]
    by - (rule exI[of _ d'], rule exI[of _ m], simp)
qed

theorem metadata_enhanced_witness:
  "field ''metadata'' example_document = None
   \<and> (\<exists>d'. enhance_database example_runtime example_document = Inr d'
          \<and> field ''metadata'' d' =
              Some (JObject [(''enhanced'', JBool True), (''last_updated'', JString ''2024-03-09'')])
          \<and> is_ymd ''2024-03-09'')"
proof -
  have date: "strftime_ymd (now example_runtime) = ''2024-03-09''"
    by code_simp
  from metadata_enhanced[OF valid_example example_clock] obtain d' m where
    run: "enhance_database example_runtime example_document = Inr d'"
    and md: "field ''metadata'' d' = Some (JObject m)"
    and ymd: "is_ymd (strftime_ymd (now example_runtime))"
    and m: "field ''metadata'' example_document = None \<longrightarrow>
                 m = [(''enhanced'', JBool True),
                      (''last_updated'', JString (strftime_ymd (now example_runtime)))]"
    by auto
  from m have "m = [(''enhanced'', JBool True), (''last_updated'', JString ''2024-03-09'')]"
    by (simp add: example_metadata date)
  with run md ymd show ?thesis
    by (simp add: example_metadata date)
qed

text \<open>
  C6. For every valid input document without a \<open>chapters\<close> key, the run succeeds and the
  output is the input with its \<open>metadata\<close> entry replaced (added last when absent) by the
  input's metadata entries with \<open>enhanced\<close> and \<open>last_updated\<close> written: every other
  key of the document, and every other key of the metadata, keeps its value.
\<close>

theorem no_chapters_frame:
  assumes "valid_document d" and "field ''chapters'' d = None"
  shows "\<exists>kvs m d'.
           d = JObject kvs
         \<and> m = AList.update ''last_updated'' (JString (strftime_ymd (now rt)))
                 (AList.update ''enhanced'' (JBool True) (metadata_entries d))
         \<and> d' = JObject (AList.update ''metadata'' (JObject m) kvs)
         \<and> enhance_database rt d = Inr d'
         \<and> (\<forall>k. k \<noteq> ''metadata'' \<longrightarrow> field k d' = field k d)
         \<and> (\<forall>k. k \<noteq> ''enhanced'' \<and> k \<noteq> ''last_updated'' \<longrightarrow>
                map_of m k = map_of (metadata_entries d) k)"
proof -
  from assms(1) obtain kvs where d: "d = JObject kvs"
    by (cases d) (simp_all add: valid_document_def shaped_document_def)
  define m where "m = AList.update ''last_updated'' (JString (strftime_ymd (now rt)))
                 (AList.update ''enhanced'' (JBool True) (metadata_entries d))"
  define d' where "d' = JObject (AList.update ''metadata'' (JObject m) kvs)"
  from assms(1) have ok: "metadata_ok d" by (simp add: valid_document_def)
  have run: "enhance_database rt d = Inr d'"
  proof (cases "map_of kvs ''metadata''")
    case None
    with assms(2) show ?thesis
      by (simp add: d no_chapters_run update_metadata_object d'_def m_def metadata_entries_def)
  next
    case (Some v)
    with ok obtain m0 where "v = JObject m0"
      by (cases v) (simp_all add: metadata_ok_def d)
    with Some assms(2) show ?thesis
      by (simp add: d no_chapters_run update_metadata_object d'_def m_def metadata_entries_def)
  qed
  have "\<forall>k. k \<noteq> ''metadata'' \<longrightarrow> field k d' = field k d"
    by (simp add: d d'_def update_conv')
  moreover have "\<forall>k. k \<noteq> ''enhanced'' \<and> k \<noteq> ''last_updated'' \<longrightarrow>
                map_of m k = map_of (metadata_entries d) k"
    by (simp add: m_def update_conv')
  ultimately show ?thesis
    using d m_def d'_def run
    by - (rule exI[of _ kvs], rule exI[of _ m], rule exI[of _ d'], simp)
qed

theorem no_chapters_frame_witness:
  "enhance_database example_runtime example_bare_document =
     Inr (JObject [(''title'', JString ''Law on New Topic''),
                   (''metadata'', JObject [(''version'', JInt 1), (''enhanced'', JBool True),
                                           (''last_updated'', JString ''2024-03-09'')])])"
proof -
  have date: "strftime_ymd (now example_runtime) = ''2024-03-09''"
    by code_simp
  from no_chapters_frame[OF valid_bare_example bare_example_chapters, of example_runtime]
  show ?thesis
    by (simp add: example_bare_document_def metadata_entries_def date)
qed

text \<open>
  C10. A Chapter without an \<open>articles\<close> key does not make the run fail: in a valid
  document (which asks such a Chapter for no \<open>chapter_title\<close>) the run succeeds, and the
  Chapter comes out as it went in, with its derived \<open>id\<close> stored and no article. The
  loop body itself succeeds on any dict that has a \<open>chapter_number\<close> and no
  \<open>articles\<close>, with or without a \<open>chapter_title\<close>.
\<close>

theorem chapter_without_articles:
  assumes "valid_document d" and "i < length (chapters_of d)"
    and "field ''articles'' (chapters_of d ! i) = None"
  shows "\<exists>d' kvs num.
           enhance_database rt d = Inr d'
         \<and> chapters_of d ! i = JObject kvs
         \<and> map_of kvs ''chapter_number'' = Some num
         \<and> chapters_of d' ! i
             = JObject (AList.update ''id'' (JString (''chap_'' @ py_format rt num)) kvs)
         \<and> field ''id'' (chapters_of d' ! i) = Some (JString (''chap_'' @ py_format rt num))
         \<and> articles_of (chapters_of d' ! i) = []
         \<and> (\<forall>kvs' num'. map_of kvs' ''articles'' = None
                \<and> map_of kvs' ''chapter_number'' = Some num' \<longrightarrow>
              enhance_chapter rt (JObject kvs')
                = Inr (JObject (AList.update ''id'' (JString (''chap_'' @ py_format rt num')) kvs')))"
proof -
  from valid_run[OF assms(1)] obtain d' where run: "enhance_database rt d = Inr d'" by blast
  from enhance_database_Inr[OF run] have all2:
    "list_all2 (\<lambda>c c'. enhance_chapter rt c = Inr c') (chapters_of d) (chapters_of d')"
    by auto
  have ch: "enhance_chapter rt (chapters_of d ! i) = Inr (chapters_of d' ! i)"
    using list_all2_nthD[OF all2 assms(2)] by simp
  from enhance_chapter_Inr[OF ch] obtain kvs num where
    c: "chapters_of d ! i = JObject kvs" and num: "map_of kvs ''chapter_number'' = Some num"
    by auto
  from assms(3) c have noarts: "map_of kvs ''articles'' = None" by simp
  from ch c no_articles_run[OF noarts num, of rt] have c':
    "chapters_of d' ! i = JObject (AList.update ''id'' (JString (''chap_'' @ py_format rt num)) kvs)"
    by simp
  have "field ''id'' (chapters_of d' ! i) = Some (JString (''chap_'' @ py_format rt num))"
    "articles_of (chapters_of d' ! i) = []"
    using noarts by (simp_all add: c' update_conv' articles_of_def)
  with run c num c' show ?thesis
    using no_articles_run[of _ _ rt]
    by - (rule exI[of _ d'], rule exI[of _ kvs], rule exI[of _ num], simp)
qed

theorem chapter_without_articles_witness:
  "field ''articles'' (chapters_of example_document ! 1) = None
   \<and> field ''chapter_title'' (chapters_of example_document ! 1) = None
   \<and> (\<exists>d'. enhance_database example_runtime example_document = Inr d'
          \<and> chapters_of d' ! 1 = JObject [(''chapter_number'', JString ''4''), (''id'', JString ''chap_4'')])"
proof -
  have c: "chapters_of example_document ! 1 = JObject [(''chapter_number'', JString ''4'')]"
    by (simp add: chapters_of_def example_document_def)
  have i: "1 < length (chapters_of example_document)" by (simp add: chapters_example)
  have a: "field ''articles'' (chapters_of example_document ! 1) = None" using c by simp
  from chapter_without_articles[OF valid_example i a, of example_runtime] obtain d' kvs num where
    "enhance_database example_runtime example_document = Inr d'"
    "chapters_of example_document ! 1 = JObject kvs"
    "map_of kvs ''chapter_number'' = Some num"
    "chapters_of d' ! 1
             = JObject (AList.update ''id'' (JString (''chap_'' @ py_format example_runtime num)) kvs)"
    by auto
  with c show ?thesis by auto
qed

text \<open>
  C8. On a document of the specified shape (dicts and lists where the data model has
  them), whenever some Chapter lacks \<open>chapter_number\<close> or some Article lacks
  \<open>article_number\<close> or \<open>content\<close>, the run ends in a KeyError naming one of the keys
  read without a default, and so returns no document: nothing catches the error. The
  loop bodies raise the KeyError of the very key that is missing.
\<close>

theorem missing_field_error:
  assumes "shaped_document d" and "document_lacks d"
  shows "(\<exists>k. enhance_database rt d = Inl (KeyError k)
            \<and> (k = ''chapter_number'' \<or> k = ''chapter_title'' \<or> k = ''article_number''
                 \<or> k = ''content''))
       \<and> (\<forall>kvs. map_of kvs ''chapter_number'' = None \<longrightarrow>
             enhance_chapter rt (JObject kvs) = Inl (KeyError ''chapter_number''))
       \<and> (\<forall>cid ch kvs. map_of kvs ''article_number'' = None \<longrightarrow>
             enhance_article rt cid ch (JObject kvs) = Inl (KeyError ''article_number''))
       \<and> (\<forall>cid ch kvs. map_of kvs ''article_number'' \<noteq> None \<and> map_of kvs ''content'' = None \<longrightarrow>
             enhance_article rt cid ch (JObject kvs) = Inl (KeyError ''content''))"
proof -
  from document_outcome[OF assms(1), of rt] assms(2)
  have "missing_field (enhance_database rt d)" by simp
  then have "\<exists>k. enhance_database rt d = Inl (KeyError k)
            \<and> (k = ''chapter_number'' \<or> k = ''chapter_title'' \<or> k = ''article_number''
                 \<or> k = ''content'')"
    by (simp only: missing_field_iff)
  moreover have "\<forall>kvs. map_of kvs ''chapter_number'' = None \<longrightarrow>
             enhance_chapter rt (JObject kvs) = Inl (KeyError ''chapter_number'')"
    by (simp add: enhance_chapter_object)
  moreover have "\<forall>cid ch kvs. map_of kvs ''article_number'' = None \<longrightarrow>
             enhance_article rt cid ch (JObject kvs) = Inl (KeyError ''article_number'')"
    by (simp add: enhance_article_object)
  moreover have "\<forall>cid ch kvs. map_of kvs ''article_number'' \<noteq> None \<and> map_of kvs ''content'' = None \<longrightarrow>
             enhance_article rt cid ch (JObject kvs) = Inl (KeyError ''content'')"
    by (auto simp: enhance_article_object)
  ultimately show ?thesis by (intro conjI)
qed

theorem missing_field_error_witness:
  "shaped_document example_lacking_document \<and> document_lacks example_lacking_document
   \<and> enhance_database example_runtime example_lacking_document = Inl (KeyError ''content'')"
proof -
  have "enhance_database example_runtime example_lacking_document = Inl (KeyError ''content'')"
    by code_simp
  with missing_field_error[OF lacking_example, of example_runtime] lacking_example
  show ?thesis by simp
qed

text \<open>
  C7. For every valid input document, a run succeeds and a second run on its output
  succeeds too (whatever the clock and the enumeration order of sets in either run) and
  gives every Chapter the same \<open>id\<close> and every Article the same \<open>id\<close>,
  \<open>fullText\<close> and \<open>tags\<close> as the first, and the same \<open>keywords\<close> as a set.
\<close>

theorem enhance_idempotent:
  assumes "valid_document d" and "set_order_ok rt1" and "set_order_ok rt2"
    and "repr_other rt2 = repr_other rt1"
  shows "\<exists>d1 d2.
           enhance_database rt1 d = Inr d1 \<and> enhance_database rt2 d1 = Inr d2
         \<and> length (chapters_of d2) = length (chapters_of d1)
         \<and> (\<forall>i<length (chapters_of d1).
               field ''id'' (chapters_of d2 ! i) = field ''id'' (chapters_of d1 ! i)
             \<and> length (articles_of (chapters_of d2 ! i)) = length (articles_of (chapters_of d1 ! i))
             \<and> (\<forall>j<length (articles_of (chapters_of d1 ! i)).
                   field ''id'' (article_at d2 i j) = field ''id'' (article_at d1 i j)
                 \<and> field ''fullText'' (article_at d2 i j) = field ''fullText'' (article_at d1 i j)
                 \<and> field ''tags'' (article_at d2 i j) = field ''tags'' (article_at d1 i j)
                 \<and> keyword_set (article_at d2 i j) = keyword_set (article_at d1 i j)))"
proof -
  from valid_run[OF assms(1)] obtain d1 where run1: "enhance_database rt1 d = Inr d1" by auto
  from document_preserved[OF assms(1) run1] have "valid_document d1" .
  from valid_run[OF this] obtain d2 where run2: "enhance_database rt2 d1 = Inr d2" by auto
  from enhance_database_Inr[OF run1] have
    "list_all2 (\<lambda>c c'. enhance_chapter rt1 c = Inr c') (chapters_of d) (chapters_of d1)"
    by auto
  then have len1: "length (chapters_of d1) = length (chapters_of d)"
    by (simp add: list_all2_lengthD)
  from enhance_database_Inr[OF run2] have
    "list_all2 (\<lambda>c c'. enhance_chapter rt2 c = Inr c') (chapters_of d1) (chapters_of d2)"
    by auto
  then have len2: "length (chapters_of d2) = length (chapters_of d1)"
    by (simp add: list_all2_lengthD)
  have fmt: "py_format rt2 v = py_format rt1 v" for v
    by (rule py_format_cong[OF assms(4)])
  have per_chapter: "field ''id'' (chapters_of d2 ! i) = field ''id'' (chapters_of d1 ! i)
             \<and> length (articles_of (chapters_of d2 ! i)) = length (articles_of (chapters_of d1 ! i))
             \<and> (\<forall>j<length (articles_of (chapters_of d1 ! i)).
                   field ''id'' (article_at d2 i j) = field ''id'' (article_at d1 i j)
                 \<and> field ''fullText'' (article_at d2 i j) = field ''fullText'' (article_at d1 i j)
                 \<and> field ''tags'' (article_at d2 i j) = field ''tags'' (article_at d1 i j)
                 \<and> keyword_set (article_at d2 i j) = keyword_set (article_at d1 i j))"
    if i1: "i < length (chapters_of d1)" for i
  proof -
    from i1 len1 have i: "i < length (chapters_of d)" by simp
    from chapter_fields[OF run1 i] obtain cnum where
      id1: "field ''id'' (chapters_of d1 ! i) = Some (JString (''chap_'' @ py_format rt1 cnum))"
      and cn1: "field ''chapter_number'' (chapters_of d1 ! i) = Some cnum"
      and alen1: "length (articles_of (chapters_of d1 ! i)) = length (articles_of (chapters_of d ! i))"
      by auto
    from chapter_fields[OF run2 i1] cn1 have
      id2: "field ''id'' (chapters_of d2 ! i) = Some (JString (''chap_'' @ py_format rt2 cnum))"
      and alen2: "length (articles_of (chapters_of d2 ! i)) = length (articles_of (chapters_of d1 ! i))"
      by auto
    have "field ''id'' (chapters_of d2 ! i) = field ''id'' (chapters_of d1 ! i)"
      by (simp add: id1 id2 fmt)
    moreover have "field ''id'' (article_at d2 i j) = field ''id'' (article_at d1 i j)
                 \<and> field ''fullText'' (article_at d2 i j) = field ''fullText'' (article_at d1 i j)
                 \<and> field ''tags'' (article_at d2 i j) = field ''tags'' (article_at d1 i j)
                 \<and> keyword_set (article_at d2 i j) = keyword_set (article_at d1 i j)"
      if "j < length (articles_of (chapters_of d1 ! i))" for j
    proof -
      from that alen1 have j: "j < length (articles_of (chapters_of d ! i))" by simp
      from second_run_article[OF run1 run2 assms(2) assms(3) assms(4) i j] show ?thesis .
    qed
    ultimately show ?thesis using alen2 by simp
  qed
  show ?thesis
    using run1 run2 len2 per_chapter
    by - (rule exI[of _ d1], rule exI[of _ d2], simp)
qed

theorem enhance_idempotent_witness:
  "\<exists>d1 d2. enhance_database example_runtime example_document = Inr d1
     \<and> enhance_database example_runtime_later d1 = Inr d2
     \<and> field ''keywords'' (article_at d1 0 0)
         = Some (JArray [JString ''first'', JString ''point;'', JString ''second''])
     \<and> field ''keywords'' (article_at d2 0 0)
         = Some (JArray [JString ''second'', JString ''point;'', JString ''first''])
     \<and> keyword_set (article_at d2 0 0) = keyword_set (article_at d1 0 0)
     \<and> field ''fullText'' (article_at d2 0 0) = field ''fullText'' (article_at d1 0 0)"
proof -
  from enhance_idempotent[OF valid_example example_set_orders example_reprs] obtain d1 d2 where
    run1: "enhance_database example_runtime example_document = Inr d1"
    and run2: "enhance_database example_runtime_later d1 = Inr d2"
    and each: "\<forall>i<length (chapters_of d1).
               field ''id'' (chapters_of d2 ! i) = field ''id'' (chapters_of d1 ! i)
             \<and> length (articles_of (chapters_of d2 ! i)) = length (articles_of (chapters_of d1 ! i))
             \<and> (\<forall>j<length (articles_of (chapters_of d1 ! i)).
                   field ''id'' (article_at d2 i j) = field ''id'' (article_at d1 i j)
                 \<and> field ''fullText'' (article_at d2 i j) = field ''fullText'' (article_at d1 i j)
                 \<and> field ''tags'' (article_at d2 i j) = field ''tags'' (article_at d1 i j)
                 \<and> keyword_set (article_at d2 i j) = keyword_set (article_at d1 i j))"
    by auto
  from run1 example_run have d1: "d1 = example_output" by simp
  have b: "0 < length (chapters_of example_output)"
    "0 < length (articles_of (chapters_of example_output ! 0))"
    by (simp_all add: chapters_of_def articles_of_def example_output_def)
  from each b have same: "keyword_set (article_at d2 0 0) = keyword_set (article_at d1 0 0)"
    "field ''fullText'' (article_at d2 0 0) = field ''fullText'' (article_at d1 0 0)"
    unfolding d1 by simp_all
  have k1: "field ''keywords'' (article_at d1 0 0)
         = Some (JArray [JString ''first'', JString ''point;'', JString ''second''])"
    by (simp add: d1 example_output_articles)
  from run2 d1 example_run_later have d2: "d2 = example_output_later" by simp
  have k2: "field ''keywords'' (article_at d2 0 0)
         = Some (JArray [JString ''second'', JString ''point;'', JString ''first''])"
    by (simp add: d2 example_output_later_def chapters_of_def articles_of_def article_at_def)
  show ?thesis
    using run1 run2 k1 k2 same
    by - (rule exI[of _ d1], rule exI[of _ d2], simp)
qed

end
